theory Spec2Isabelle
  imports Main "HOL-Library.AList"
begin

section \<open>Python values, strings and exceptions\<close>

text \<open>
  The program is the identity database (\<^verbatim>\<open>libpkpass/identities.py\<close>) and the recipient
  handling of the command base class (\<^verbatim>\<open>libpkpass/commands/command.py\<close>) of pkpass.
  Strings are lists of characters with the code points 0 to 255, and the string methods are
  those of Python 3 on these code points. A Python \<^verbatim>\<open>dict\<close> whose iteration order the code relies on is an
  association list with \<open>map_of\<close> for lookup and \<open>AList.update\<close> for item assignment
  (an existing key keeps its position, a new key goes to the end); the argument dictionary,
  which is only ever looked up, is a map.
\<close>

datatype pyval =
    PNone
  | PBool bool
  | PInt int
  | PStr string
  | PList "string list"

text \<open>Python's truth value of an object (\<^verbatim>\<open>if x:\<close>).\<close>

fun truthy :: "pyval \<Rightarrow> bool" where
  "truthy PNone = False"
| "truthy (PBool b) = b"
| "truthy (PInt i) = (i \<noteq> 0)"
| "truthy (PStr s) = (s \<noteq> [])"
| "truthy (PList xs) = (xs \<noteq> [])"

text \<open>
  The exceptions of \<^verbatim>\<open>libpkpass.errors\<close> that the two modules raise, the built-in ones that
  their statements can raise, and \<open>ExternalError\<close> for whatever a collaborator outside these
  two modules (a connector, \<^verbatim>\<open>pem\<close>, \<^verbatim>\<open>libpkpass.crypto\<close>) raises.
\<close>

datatype error =
    FileOpenError string string
  | CliArgumentError string
  | NullRecipientError
  | GroupDefinitionError string
  | KeyError string
  | TypeError
  | AttributeError
  | OSError string
  | ExternalError string

text \<open>\<^verbatim>\<open>s.split(sep)\<close> for a one-character separator: never empty, \<^verbatim>\<open>"".split(",") == [""]\<close>.\<close>

fun split :: "char \<Rightarrow> string \<Rightarrow> string list" where
  "split sep [] = [[]]"
| "split sep (c # cs) =
     (if c = sep then [] # split sep cs
      else (case split sep cs of
              [] \<Rightarrow> [[c]]
            | w # ws \<Rightarrow> (c # w) # ws))"

text \<open>
  \<^verbatim>\<open>str.isspace\<close> of Python 3 on the code points 0 to 255: tab, line feed, vertical tab,
  form feed, carriage return, the four separators 0x1C to 0x1F, the space, the next-line
  control 0x85 and the no-break space 0xA0.
\<close>

definition isspace :: "char \<Rightarrow> bool" where
  "isspace c \<longleftrightarrow>
     (let n = (of_char c :: nat)
      in (9 \<le> n \<and> n \<le> 13) \<or> (28 \<le> n \<and> n \<le> 32) \<or> n = 133 \<or> n = 160)"

text \<open>\<^verbatim>\<open>s.strip()\<close>: leading and trailing whitespace removed.\<close>

definition strip :: "string \<Rightarrow> string" where
  "strip s = rev (dropWhile isspace (rev (dropWhile isspace s)))"

text \<open>\<^verbatim>\<open>s.endswith(suffix)\<close> and \<^verbatim>\<open>s.endswith(tuple)\<close>.\<close>

definition endswith :: "string \<Rightarrow> string \<Rightarrow> bool" where
  "endswith s suf \<longleftrightarrow> length suf \<le> length s \<and> drop (length s - length suf) s = suf"

definition endswith_any :: "string \<Rightarrow> string list \<Rightarrow> bool" where
  "endswith_any s sufs \<longleftrightarrow> list_ex (endswith s) sufs"

text \<open>
  \<^verbatim>\<open>s.lower()\<close> of Python 3 on the code points 0 to 255: the letters A to Z and the
  letters 0xC0 to 0xDE, without the multiplication sign 0xD7, move up by 32.
\<close>

definition lower_char :: "char \<Rightarrow> char" where
  "lower_char c =
     (let n = (of_char c :: nat)
      in if (65 \<le> n \<and> n \<le> 90) \<or> (192 \<le> n \<and> n \<le> 222 \<and> n \<noteq> 215) then char_of (n + 32)
         else c)"

definition lower :: "string \<Rightarrow> string" where
  "lower s = map lower_char s"

text \<open>\<^verbatim>\<open>sep.join(xs)\<close>.\<close>

fun join :: "string \<Rightarrow> string list \<Rightarrow> string" where
  "join sep [] = []"
| "join sep [x] = x"
| "join sep (x # y # ys) = x @ sep @ join sep (y # ys)"

text \<open>
  \<^verbatim>\<open>os.path.join(a, b)\<close> on POSIX paths: an absolute second component replaces the first,
  otherwise the two are joined by one slash unless the first is empty or ends with one.
\<close>

definition os_path_join :: "string \<Rightarrow> string \<Rightarrow> string" where
  "os_path_join a b =
     (if b \<noteq> [] \<and> hd b = CHR ''/'' then b
      else if a = [] \<or> last a = CHR ''/'' then a @ b
      else a @ ''/'' @ b)"

section \<open>Recipient resolution (\<^verbatim>\<open>Command._build_recipient_list\<close>)\<close>

text \<open>\<^verbatim>\<open>self.args\<close>: the merged configuration and command line, a dictionary of Python values.\<close>

type_synonym args = "string \<rightharpoonup> pyval"

text \<open>
  Line 92 of \<^verbatim>\<open>_run_command_setup\<close>:
  \<^verbatim>\<open>self.args['escrow_users'] = self.args['escrow_users'].split(",") if self.args['escrow_users'] else []\<close>.
\<close>

definition split_escrow_users :: "args \<Rightarrow> error + args" where
  "split_escrow_users a =
     (case a ''escrow_users'' of
        None \<Rightarrow> Inl (KeyError ''escrow_users'')
      | Some v \<Rightarrow>
          if truthy v then
            (case v of
               PStr s \<Rightarrow> Inr (a(''escrow_users'' \<mapsto> PList (split CHR '','' s)))
             | _ \<Rightarrow> Inl AttributeError)
          else Inr (a(''escrow_users'' \<mapsto> PList [])))"

text \<open>
  \<^verbatim>\<open>repr(s)\<close> of a Python 3 string over the code points 0 to 255, which is what
  \<^verbatim>\<open>str(KeyError(s))\<close> returns: the string in single quotes, or in double quotes when it
  holds a single quote and no double quote; the backslash and the enclosing quote are
  escaped with a backslash, tab, line feed and carriage return are \<^verbatim>\<open>\t\<close>, \<^verbatim>\<open>\n\<close> and
  \<^verbatim>\<open>\r\<close>, and the other characters that are not printable (below 0x20, 0x7F to 0xA0, and
  0xAD) are \<^verbatim>\<open>\x\<close> and two hexadecimal digits.
\<close>

definition hexdigit :: "nat \<Rightarrow> char" where
  "hexdigit k = ''0123456789abcdef'' ! (k mod 16)"

definition repr_char :: "char \<Rightarrow> char \<Rightarrow> string" where
  "repr_char quote c =
     (let n = (of_char c :: nat)
      in if c = CHR 0x5C \<or> c = quote then [CHR 0x5C, c]
         else if n = 9 then [CHR 0x5C, CHR ''t'']
         else if n = 10 then [CHR 0x5C, CHR ''n'']
         else if n = 13 then [CHR 0x5C, CHR ''r'']
         else if n < 32 \<or> (127 \<le> n \<and> n \<le> 160) \<or> n = 173
           then [CHR 0x5C, CHR ''x'', hexdigit (n div 16), hexdigit n]
         else [c])"

definition py_repr :: "string \<Rightarrow> string" where
  "py_repr s =
     (let quote = (if CHR 0x27 \<in> set s \<and> CHR 0x22 \<notin> set s then CHR 0x22 else CHR 0x27)
      in [quote] @ concat (map (repr_char quote) s) @ [quote])"

text \<open>
  The loop of \<^verbatim>\<open>_parse_group_membership\<close>: each group name, stripped, is a key of
  \<^verbatim>\<open>self.args\<close> whose value is split at the commas. A missing key is the \<^verbatim>\<open>KeyError\<close> that
  the function turns into \<^verbatim>\<open>GroupDefinitionError(str(err))\<close>, whose message is the
  \<^verbatim>\<open>repr\<close> of the key; a value that is not a string has no \<^verbatim>\<open>split\<close>.
\<close>

fun group_members :: "args \<Rightarrow> string list \<Rightarrow> string list \<Rightarrow> error + string list" where
  "group_members a [] member_list = Inr member_list"
| "group_members a (g # gs) member_list =
     (case a (strip g) of
        None \<Rightarrow> Inl (GroupDefinitionError (py_repr (strip g)))
      | Some (PStr m) \<Rightarrow> group_members a gs (member_list @ split CHR '','' m)
      | Some _ \<Rightarrow> Inl AttributeError)"

text \<open>
  \<^verbatim>\<open>self.args[group.strip()].split(',')\<close> for a group whose key holds a string: the members
  that the configuration gives the group.
\<close>

definition members_of :: "args \<Rightarrow> string \<Rightarrow> string list" where
  "members_of a g = (case a (strip g) of Some (PStr m) \<Rightarrow> split CHR '','' m | _ \<Rightarrow> [])"

definition parse_group_membership :: "args \<Rightarrow> error + string list" where
  "parse_group_membership a =
     (case a ''groups'' of
        None \<Rightarrow> Inl (GroupDefinitionError (py_repr ''groups''))
      | Some (PStr g) \<Rightarrow> group_members a (split CHR '','' g) []
      | Some _ \<Rightarrow> Inl AttributeError)"

text \<open>\<^verbatim>\<open>recipient_list.extend(v)\<close>: a list adds its elements, a string its characters.\<close>

fun extend :: "string list \<Rightarrow> pyval \<Rightarrow> error + string list" where
  "extend xs (PList ys) = Inr (xs @ ys)"
| "extend xs (PStr s) = Inr (xs @ map (\<lambda>c. [c]) s)"
| "extend xs _ = Inl TypeError"

text \<open>\<^verbatim>\<open>'k' in self.args and self.args['k'] is not None\<close>.\<close>

definition configured :: "args \<Rightarrow> string \<Rightarrow> bool" where
  "configured a k \<longleftrightarrow> (case a k of None \<Rightarrow> False | Some v \<Rightarrow> v \<noteq> PNone)"

text \<open>
  Lines 191 to 195 of \<^verbatim>\<open>_build_recipient_list\<close>: the escrow users, the members of the groups
  and the users are added to \<^verbatim>\<open>self.recipient_list\<close>. The result is the exception raised, if
  any, and the list as it is at that point (\<^verbatim>\<open>+=\<close> does not assign when its right-hand side
  raises).
\<close>

definition gather_recipients :: "args \<Rightarrow> string list \<Rightarrow> error option \<times> string list" where
  "gather_recipients a recipient_list =
     (case a ''escrow_users'' of
        None \<Rightarrow> (Some (KeyError ''escrow_users''), recipient_list)
      | Some ev \<Rightarrow>
          (case extend recipient_list ev of
             Inl e \<Rightarrow> (Some e, recipient_list)
           | Inr rl1 \<Rightarrow>
               (case (if configured a ''groups'' then parse_group_membership a else Inr []) of
                  Inl e \<Rightarrow> (Some e, rl1)
                | Inr members \<Rightarrow>
                    (if configured a ''users'' then
                       (case a ''users'' of
                          Some (PStr u) \<Rightarrow> (None, rl1 @ members @ split CHR '','' u)
                        | _ \<Rightarrow> (Some AttributeError, rl1 @ members))
                     else (None, rl1 @ members)))))"

text \<open>
  \<^verbatim>\<open>list(set(xs))\<close> lists each element of \<open>xs\<close> once, in an order that Python does not
  specify. The order is a parameter \<open>order\<close> of the model; \<open>set_listing order\<close> says that it
  is such a listing.
\<close>

definition set_listing :: "(string list \<Rightarrow> string list) \<Rightarrow> bool" where
  "set_listing order \<longleftrightarrow> (\<forall>xs. distinct (order xs) \<and> set (order xs) = set xs)"

text \<open>
  \<^verbatim>\<open>_build_recipient_list\<close>: the gathered list is made a set, listed and then stripped; an
  empty entry raises \<^verbatim>\<open>NullRecipientError\<close>; a \<^verbatim>\<open>KeyError\<close> is swallowed. The result is the
  exception that leaves the function, if any, and \<^verbatim>\<open>self.recipient_list\<close> afterwards.
\<close>

definition build_recipient_list ::
  "(string list \<Rightarrow> string list) \<Rightarrow> args \<Rightarrow> string list \<Rightarrow> error option \<times> string list" where
  "build_recipient_list order a recipient_list =
     (case gather_recipients a recipient_list of
        (Some (KeyError k), rl) \<Rightarrow> (None, rl)
      | (Some e, rl) \<Rightarrow> (Some e, rl)
      | (None, rl) \<Rightarrow>
          (let rl' = map strip (order rl)
           in (if [] \<in> set rl' then Some NullRecipientError else None, rl')))"

section \<open>The identity database (\<^verbatim>\<open>IdentityDB\<close>)\<close>

text \<open>
  An identity is a dictionary with the key \<^verbatim>\<open>uid\<close> and, once they have been assigned, the keys
  \<^verbatim>\<open>certificate_path\<close>, \<^verbatim>\<open>key_path\<close>, \<^verbatim>\<open>cabundle\<close> and \<^verbatim>\<open>certs\<close>; a key that is not
  there is \<open>None\<close>. A certificate dictionary has all of its eight keys.
\<close>

record cert_dict =
  cert_bytes :: string
  verified :: bool
  fingerprint :: string
  subject :: string
  issuer :: string
  enddate :: string
  issuerhash :: string
  subjecthash :: string

record identity =
  uid :: string
  certificate_path :: "string option"
  key_path :: "string option"
  id_cabundle :: "string option"
  certs :: "cert_dict list option"

record identitydb =
  cabundle :: string
  iddb :: "(string \<times> identity) list"

text \<open>\<^verbatim>\<open>IdentityDB.__init__\<close>: no trust anchor, no identity.\<close>

definition init_identitydb :: identitydb where
  "init_identitydb = \<lparr>cabundle = [], iddb = []\<rparr>"

datatype filetype = Certificate | Key

text \<open>
  \<^verbatim>\<open>self.extensions = {'certificate': ['.cert', '.crt'], 'key': '.key'}\<close>: the certificate entry
  is a list of strings, the key entry is one string. \<^verbatim>\<open>tuple(...)\<close> of a list has its elements,
  \<^verbatim>\<open>tuple(...)\<close> of a string has its characters, each a string of length one.
\<close>

datatype ext_entry = ExtList "string list" | ExtStr string

fun extensions :: "filetype \<Rightarrow> ext_entry" where
  "extensions Certificate = ExtList [''.cert'', ''.crt'']"
| "extensions Key = ExtStr ''.key''"

fun tuple_of :: "ext_entry \<Rightarrow> string list" where
  "tuple_of (ExtList xs) = xs"
| "tuple_of (ExtStr s) = map (\<lambda>c. [c]) s"

text \<open>\<^verbatim>\<open>str(self.extensions['certificate'][0])\<close>.\<close>

fun first_ext :: "ext_entry \<Rightarrow> string" where
  "first_ext (ExtList (e # es)) = e"
| "first_ext (ExtStr (c # cs)) = [c]"
| "first_ext _ = []"

text \<open>The item \<^verbatim>\<open>"%s_path" % filetype\<close> of an identity.\<close>

fun path_of :: "filetype \<Rightarrow> identity \<Rightarrow> string option" where
  "path_of Certificate r = certificate_path r"
| "path_of Key r = key_path r"

fun set_path :: "filetype \<Rightarrow> string \<Rightarrow> identity \<Rightarrow> identity" where
  "set_path Certificate p r = r\<lparr>certificate_path := Some p\<rparr>"
| "set_path Key p r = r\<lparr>key_path := Some p\<rparr>"

text \<open>\<^verbatim>\<open>{'uid': fname.split('.')[0], "%s_path" % filetype: filepath}\<close>.\<close>

definition new_identity :: "string \<Rightarrow> filetype \<Rightarrow> string \<Rightarrow> identity" where
  "new_identity u ft p =
     set_path ft p
       \<lparr>uid = u, certificate_path = None, key_path = None, id_cabundle = None, certs = None\<rparr>"

text \<open>
  The body of the loop of \<^verbatim>\<open>_load_from_directory\<close> for one directory entry: a name that ends
  with one of the extensions sets the path of the identity \<^verbatim>\<open>fname.split('.')[0]\<close>, and the
  \<^verbatim>\<open>KeyError\<close> of a missing identity creates it.
\<close>

definition load_file ::
  "string \<Rightarrow> filetype \<Rightarrow> (string \<times> identity) list \<Rightarrow> string \<Rightarrow> (string \<times> identity) list" where
  "load_file path ft d fname =
     (if endswith_any fname (tuple_of (extensions ft)) then
        (let u = hd (split CHR ''.'' fname);
             filepath = os_path_join path fname
         in (case map_of d u of
               Some r \<Rightarrow> AList.update u (set_path ft filepath r) d
             | None \<Rightarrow> AList.update u (new_identity (hd (split CHR ''.'' fname)) ft filepath) d))
      else d)"

text \<open>The loop itself, over the names that \<^verbatim>\<open>os.listdir\<close> returned.\<close>

abbreviation load_files ::
  "string \<Rightarrow> filetype \<Rightarrow> string list \<Rightarrow> (string \<times> identity) list \<Rightarrow> (string \<times> identity) list" where
  "load_files path ft fnames d \<equiv> fold (\<lambda>fname d. load_file path ft d fname) fnames d"

text \<open>
  The names of a listing that the loop takes for the identity \<open>k\<close>: they end with one of
  the extensions of the artifact type, and \<open>k\<close> is their part before the first dot.
\<close>

definition files_for :: "filetype \<Rightarrow> string list \<Rightarrow> string \<Rightarrow> string list" where
  "files_for ft fnames k =
     filter (\<lambda>fname. endswith_any fname (tuple_of (extensions ft)) \<and> hd (split CHR ''.'' fname) = k)
       fnames"

text \<open>Every identity of the database is stored under its own \<^verbatim>\<open>uid\<close>.\<close>

definition uid_keyed :: "(string \<times> identity) list \<Rightarrow> bool" where
  "uid_keyed d \<longleftrightarrow> list_all (\<lambda>(k, r). uid r = k) d"

text \<open>
  The functions of \<^verbatim>\<open>os\<close>, \<^verbatim>\<open>os.path\<close> and \<^verbatim>\<open>tempfile\<close> that the database calls, over a file
  system of any type \<open>'fs\<close>. A function that can raise returns the exception; one that writes
  returns the file system afterwards.
\<close>

record 'fs os_module =
  listdir :: "'fs \<Rightarrow> string \<Rightarrow> error + string list"
  path_exists :: "'fs \<Rightarrow> string \<Rightarrow> bool"
  isdir :: "'fs \<Rightarrow> string \<Rightarrow> bool"
  makedirs :: "'fs \<Rightarrow> string \<Rightarrow> error option \<times> 'fs"
  write_text :: "'fs \<Rightarrow> string \<Rightarrow> string \<Rightarrow> error option \<times> 'fs"
  gettempdir :: "'fs \<Rightarrow> string"

text \<open>
  \<^verbatim>\<open>_load_from_directory\<close>: only \<^verbatim>\<open>os.listdir\<close> can raise inside the \<^verbatim>\<open>try\<close>, before the first
  entry is looked at, and its \<^verbatim>\<open>OSError\<close> becomes \<^verbatim>\<open>FileOpenError(path, strerror)\<close>.
\<close>

definition load_from_directory ::
  "'fs os_module \<Rightarrow> 'fs \<Rightarrow> identitydb \<Rightarrow> string \<Rightarrow> filetype \<Rightarrow> error + identitydb" where
  "load_from_directory os f db path ft =
     (case listdir os f path of
        Inl (OSError strerror) \<Rightarrow> Inl (FileOpenError path strerror)
      | Inl e \<Rightarrow> Inl e
      | Inr fnames \<Rightarrow> Inr (db\<lparr>iddb := load_files path ft fnames (iddb db)\<rparr>))"

text \<open>\<^verbatim>\<open>load_keys_from_directory\<close>: a path that is not a directory is passed over.\<close>

definition load_keys_from_directory ::
  "'fs os_module \<Rightarrow> 'fs \<Rightarrow> identitydb \<Rightarrow> string \<Rightarrow> error + identitydb" where
  "load_keys_from_directory os f db path =
     (if isdir os f path then load_from_directory os f db path Key else Inr db)"

subsection \<open>Verification of one identity\<close>

text \<open>
  \<^verbatim>\<open>pem.parse_file\<close> (the encoded certificates of a file, \<^verbatim>\<open>as_bytes\<close> applied) and the
  functions of \<^verbatim>\<open>libpkpass.crypto\<close> are not part of the two modules: they are parameters,
  each of which may raise. One value of this record is one state of the certificate files
  and of the trust anchor.
\<close>

record crypto =
  parse_file :: "string \<Rightarrow> error + string list"
  pk_verify_chain :: "string \<Rightarrow> string \<Rightarrow> error + bool"
  get_cert_fingerprint :: "string \<Rightarrow> error + string"
  get_cert_subject :: "string \<Rightarrow> error + string"
  get_cert_issuer :: "string \<Rightarrow> error + string"
  get_cert_enddate :: "string \<Rightarrow> error + string"
  get_cert_issuerhash :: "string \<Rightarrow> error + string"
  get_cert_subjecthash :: "string \<Rightarrow> error + string"

text \<open>Sequencing of calls that may raise.\<close>

definition and_then :: "error + 'a \<Rightarrow> ('a \<Rightarrow> error + 'b) \<Rightarrow> error + 'b" where
  "and_then r k = (case r of Inl e \<Rightarrow> Inl e | Inr x \<Rightarrow> k x)"

text \<open>Lines 100 to 109 of \<^verbatim>\<open>verify_identity\<close>: the dictionary of one certificate.\<close>

definition make_cert_dict :: "crypto \<Rightarrow> string \<Rightarrow> string \<Rightarrow> error + cert_dict" where
  "make_cert_dict cr cab cert =
     and_then (pk_verify_chain cr cert cab) (\<lambda>v.
     and_then (get_cert_fingerprint cr cert) (\<lambda>fp.
     and_then (get_cert_subject cr cert) (\<lambda>sj.
     and_then (get_cert_issuer cr cert) (\<lambda>iss.
     and_then (get_cert_enddate cr cert) (\<lambda>ed.
     and_then (get_cert_issuerhash cr cert) (\<lambda>ih.
     and_then (get_cert_subjecthash cr cert) (\<lambda>sh.
       Inr \<lparr>cert_bytes = cert, verified = v, fingerprint = fp, subject = sj, issuer = iss,
            enddate = ed, issuerhash = ih, subjecthash = sh\<rparr>)))))))"

text \<open>
  The loop over the certificates of the file: each dictionary is appended to the \<^verbatim>\<open>certs\<close>
  list of the identity; an exception leaves the list as it is at that point.
\<close>

fun verify_certs ::
  "crypto \<Rightarrow> string \<Rightarrow> string list \<Rightarrow> cert_dict list \<Rightarrow> error option \<times> cert_dict list" where
  "verify_certs cr cab [] acc = (None, acc)"
| "verify_certs cr cab (cert # rest) acc =
     (case make_cert_dict cr cab cert of
        Inl e \<Rightarrow> (Some e, acc)
      | Inr d \<Rightarrow> verify_certs cr cab rest (acc @ [d]))"

text \<open>The message of the \<^verbatim>\<open>CliArgumentError\<close> of \<^verbatim>\<open>verify_identity\<close> and of the recipient check.\<close>

definition recipient_msg :: "string \<Rightarrow> string" where
  "recipient_msg u =
     ''Error: Recipient '' @ [CHR 0x27] @ u @ [CHR 0x27] @ '' is not in the recipient database''"

text \<open>\<^verbatim>\<open>except KeyError: raise CliArgumentError(...)\<close>; any other exception passes.\<close>

fun on_key_error :: "string \<Rightarrow> error \<Rightarrow> error" where
  "on_key_error u (KeyError k) = CliArgumentError (recipient_msg u)"
| "on_key_error u e = e"

text \<open>
  \<^verbatim>\<open>verify_identity(self, identity, results)\<close>. The two item assignments of lines 97 and 98
  come first: they raise \<^verbatim>\<open>KeyError\<close> for an identity that is not in \<^verbatim>\<open>self.iddb\<close>, and they
  have been made when line 99 raises \<^verbatim>\<open>KeyError\<close> for an identity without the key
  \<^verbatim>\<open>certificate_path\<close>. The result is the exception raised, if any, and the database
  afterwards. \<open>results\<close> is not used.
\<close>

definition verify_identity ::
  "crypto \<Rightarrow> identitydb \<Rightarrow> string \<Rightarrow> 'r \<Rightarrow> error option \<times> identitydb" where
  "verify_identity cr db u results =
     (case map_of (iddb db) u of
        None \<Rightarrow> (Some (on_key_error u (KeyError u)), db)
      | Some r \<Rightarrow>
          (let r1 = r\<lparr>id_cabundle := Some (cabundle db), certs := Some []\<rparr>;
               db1 = db\<lparr>iddb := AList.update u r1 (iddb db)\<rparr>
           in (case certificate_path r1 of
                 None \<Rightarrow> (Some (on_key_error u (KeyError ''certificate_path'')), db1)
               | Some p \<Rightarrow>
                   (case parse_file cr p of
                      Inl e \<Rightarrow> (Some (on_key_error u e), db1)
                    | Inr pems \<Rightarrow>
                        (case verify_certs cr (cabundle db) pems [] of
                           (eo, cs) \<Rightarrow>
                             (map_option (on_key_error u) eo,
                              db\<lparr>iddb := AList.update u (r1\<lparr>certs := Some cs\<rparr>) (iddb db)\<rparr>))))))"

text \<open>
  A call of the method with the positional arguments that the call site passes: \<open>results\<close> is
  \<open>None\<close> when the call site passes \<^verbatim>\<open>identity\<close> alone. The method has no default for
  \<^verbatim>\<open>results\<close>, so Python raises \<^verbatim>\<open>TypeError\<close> before the body runs.
\<close>

definition call_verify_identity ::
  "crypto \<Rightarrow> identitydb \<Rightarrow> string \<Rightarrow> 'r option \<Rightarrow> error option \<times> identitydb" where
  "call_verify_identity cr db u results =
     (case results of
        None \<Rightarrow> (Some TypeError, db)
      | Some res \<Rightarrow> verify_identity cr db u res)"

subsection \<open>Loading from connectors and from a directory, verification on load\<close>

text \<open>
  What the database does to its surroundings: the file system, the database itself, and the
  connectors it has called, each with the class name and the connection value of the call.
  The last field is not a field of the source: it records the calls made on the connectors.
\<close>

record 'fs state =
  fs :: "'fs"
  identities :: identitydb
  invoked :: "(string \<times> pyval) list"

text \<open>
  Lines 39 to 44 of \<^verbatim>\<open>_load_certs_from_external\<close>: the module \<^verbatim>\<open>key.lower()\<close> is imported,
  its attribute \<^verbatim>\<open>key\<close> is called with the connection value, and \<^verbatim>\<open>list_certificates()\<close> of
  the object gives a dictionary from names to lists of certificates. The modules are not
  part of the program: the function takes the module name, the class name and the value.
\<close>

type_synonym connectors = "string \<Rightarrow> string \<Rightarrow> pyval \<Rightarrow> error + (string \<times> string list) list"

text \<open>Lines 45 to 47: one file per name, the certificates joined by line feeds.\<close>

fun write_certs ::
  "'fs os_module \<Rightarrow> 'fs \<Rightarrow> string \<Rightarrow> (string \<times> string list) list \<Rightarrow> error option \<times> 'fs" where
  "write_certs os f dirname [] = (None, f)"
| "write_certs os f dirname ((name, certlist) # rest) =
     (case write_text os f (os_path_join dirname name @ first_ext (extensions Certificate))
             (join [CHR 0x0A] certlist) of
        (Some e, f') \<Rightarrow> (Some e, f')
      | (None, f') \<Rightarrow> write_certs os f' dirname rest)"

text \<open>
  The body of the loop of \<^verbatim>\<open>_load_certs_from_external\<close> for one entry of the connection
  map. \<^verbatim>\<open>os.path.join\<close> raises \<^verbatim>\<open>TypeError\<close> for a base directory that is not a string;
  \<^verbatim>\<open>nocache or not os.listdir(dirname)\<close> lists the directory only when \<^verbatim>\<open>nocache\<close> is false.
\<close>

definition load_connector ::
  "'fs os_module \<Rightarrow> connectors \<Rightarrow> bool \<Rightarrow> pyval \<Rightarrow> 'fs state \<Rightarrow> string \<times> pyval \<Rightarrow>
   error option \<times> 'fs state" where
  "load_connector os conn nocache temp_dir s entry =
     (case entry of (key, val) \<Rightarrow>
      (case temp_dir of
         PStr t \<Rightarrow>
           (let dirname = os_path_join t key in
            (case (if \<not> path_exists os (fs s) dirname then makedirs os (fs s) dirname
                   else (None, fs s)) of
               (Some e, f1) \<Rightarrow> (Some e, s\<lparr>fs := f1\<rparr>)
             | (None, f1) \<Rightarrow>
                 (case (if nocache then Inr True
                        else (case listdir os f1 dirname of
                                Inl e \<Rightarrow> Inl e
                              | Inr names \<Rightarrow> Inr (names = []))) of
                    Inl e \<Rightarrow> (Some e, s\<lparr>fs := f1\<rparr>)
                  | Inr fetch \<Rightarrow>
                      (case (if fetch then
                               (let s1 = s\<lparr>fs := f1, invoked := invoked s @ [(key, val)]\<rparr> in
                                (case conn (lower key) key val of
                                   Inl e \<Rightarrow> (Some e, s1)
                                 | Inr fetched \<Rightarrow>
                                     (case write_certs os f1 dirname fetched of
                                        (eo, f2) \<Rightarrow> (eo, s1\<lparr>fs := f2\<rparr>))))
                             else (None, s\<lparr>fs := f1\<rparr>)) of
                         (Some e, s2) \<Rightarrow> (Some e, s2)
                       | (None, s2) \<Rightarrow>
                           (case load_from_directory os (fs s2) (identities s2) dirname Certificate of
                              Inl e \<Rightarrow> (Some e, s2)
                            | Inr db \<Rightarrow> (None, s2\<lparr>identities := db\<rparr>))))))
       | _ \<Rightarrow> (Some TypeError, s)))"

text \<open>The loop over the entries: an exception ends it.\<close>

fun load_connectors ::
  "'fs os_module \<Rightarrow> connectors \<Rightarrow> bool \<Rightarrow> pyval \<Rightarrow> 'fs state \<Rightarrow> (string \<times> pyval) list \<Rightarrow>
   error option \<times> 'fs state" where
  "load_connectors os conn nocache temp_dir s [] = (None, s)"
| "load_connectors os conn nocache temp_dir s (entry # rest) =
     (case load_connector os conn nocache temp_dir s entry of
        (Some e, s') \<Rightarrow> (Some e, s')
      | (None, s') \<Rightarrow> load_connectors os conn nocache temp_dir s' rest)"

text \<open>
  Lines 28 to 32 of \<^verbatim>\<open>_load_certs_from_external\<close>: a true \<^verbatim>\<open>base_directory\<close> entry of the
  connection map, which is the decoded JSON object of the \<^verbatim>\<open>connect\<close> argument, is the
  root of the cache directories and is deleted from the map; otherwise the root is
  \<^verbatim>\<open>tempfile.gettempdir()\<close> and the map stays as it is. The caller does not read the map
  again.
\<close>

definition cache_root :: "'fs os_module \<Rightarrow> 'fs \<Rightarrow> (string \<times> pyval) list \<Rightarrow> pyval" where
  "cache_root os f connection_map =
     (case map_of connection_map ''base_directory'' of
        Some v \<Rightarrow> if truthy v then v else PStr (gettempdir os f)
      | None \<Rightarrow> PStr (gettempdir os f))"

definition connector_entries :: "(string \<times> pyval) list \<Rightarrow> (string \<times> pyval) list" where
  "connector_entries connection_map =
     (case map_of connection_map ''base_directory'' of
        Some v \<Rightarrow> if truthy v then AList.delete ''base_directory'' connection_map
                  else connection_map
      | None \<Rightarrow> connection_map)"

text \<open>\<^verbatim>\<open>_load_certs_from_external\<close>: the loop runs over the entries that are left.\<close>

definition load_certs_from_external ::
  "'fs os_module \<Rightarrow> connectors \<Rightarrow> 'fs state \<Rightarrow> (string \<times> pyval) list \<Rightarrow> bool \<Rightarrow>
   error option \<times> 'fs state" where
  "load_certs_from_external os conn s connection_map nocache =
     load_connectors os conn nocache (cache_root os (fs s) connection_map) s
       (connector_entries connection_map)"

text \<open>
  Lines 77 to 80 of \<^verbatim>\<open>load_certs_from_directory\<close>: the connectors of a connection map that
  is neither \<^verbatim>\<open>None\<close> nor empty, then the directory of a path that is neither \<^verbatim>\<open>None\<close> nor
  empty.
\<close>

definition load_sources ::
  "'fs os_module \<Rightarrow> connectors \<Rightarrow> 'fs state \<Rightarrow> string option \<Rightarrow> (string \<times> pyval) list option \<Rightarrow>
   bool \<Rightarrow> error option \<times> 'fs state" where
  "load_sources os conn s certpath connectmap nocache =
     (case (case connectmap of
              None \<Rightarrow> (None, s)
            | Some cm \<Rightarrow> if cm \<noteq> [] then load_certs_from_external os conn s cm nocache
                         else (None, s)) of
        (Some e, s1) \<Rightarrow> (Some e, s1)
      | (None, s1) \<Rightarrow>
          (case certpath of
             None \<Rightarrow> (None, s1)
           | Some p \<Rightarrow>
               if p \<noteq> [] then
                 (case load_from_directory os (fs s1) (identities s1) p Certificate of
                    Inl e \<Rightarrow> (Some e, s1)
                  | Inr db \<Rightarrow> (None, s1\<lparr>identities := db\<rparr>))
               else (None, s1)))"

text \<open>
  Lines 82 to 88: one thread per key of \<^verbatim>\<open>self.iddb\<close> runs \<^verbatim>\<open>verify_identity(identity, [])\<close>,
  and every thread is joined. An exception that a thread's target raises ends that thread
  and nothing else: \<^verbatim>\<open>join\<close> returns as for any other thread. Each thread reads
  \<^verbatim>\<open>self.cabundle\<close> and assigns only to the items of its own identity, so the threads are run
  here one after the other, in the order in which they are started.
\<close>

definition run_thread :: "crypto \<Rightarrow> string \<Rightarrow> identitydb \<Rightarrow> identitydb" where
  "run_thread cr u db = snd (verify_identity cr db u ([] :: string list))"

definition verify_all :: "crypto \<Rightarrow> identitydb \<Rightarrow> identitydb" where
  "verify_all cr db = fold (run_thread cr) (map fst (iddb db)) db"

text \<open>\<^verbatim>\<open>load_certs_from_directory\<close>.\<close>

definition load_certs_from_directory ::
  "'fs os_module \<Rightarrow> connectors \<Rightarrow> crypto \<Rightarrow> 'fs state \<Rightarrow> string option \<Rightarrow> bool \<Rightarrow>
   (string \<times> pyval) list option \<Rightarrow> bool \<Rightarrow> error option \<times> 'fs state" where
  "load_certs_from_directory os conn cr s certpath verify_on_load connectmap nocache =
     (case load_sources os conn s certpath connectmap nocache of
        (Some e, s1) \<Rightarrow> (Some e, s1)
      | (None, s1) \<Rightarrow>
          (None, if verify_on_load then s1\<lparr>identities := verify_all cr (identities s1)\<rparr> else s1))"

section \<open>Validation of the recipients (\<^verbatim>\<open>Command._validate_identities\<close>)\<close>

definition user_msg :: "string \<Rightarrow> string" where
  "user_msg u =
     ''Error: Your user '' @ [CHR 0x27] @ u @ [CHR 0x27] @ '' is not in the recipient database''"

text \<open>
  The loop over the recipients. The call is \<^verbatim>\<open>self.identities.verify_identity(recipient)\<close>,
  with one positional argument.
\<close>

fun validate_recipients ::
  "crypto \<Rightarrow> identitydb \<Rightarrow> string list \<Rightarrow> error option \<times> identitydb" where
  "validate_recipients cr db [] = (None, db)"
| "validate_recipients cr db (recipient # rest) =
     (case call_verify_identity cr db recipient (None :: string list option) of
        (Some e, db') \<Rightarrow> (Some e, db')
      | (None, db') \<Rightarrow>
          (if recipient \<notin> set (map fst (iddb db'))
           then (Some (CliArgumentError (recipient_msg recipient)), db')
           else validate_recipients cr db' rest))"

definition validate_identities ::
  "crypto \<Rightarrow> identitydb \<Rightarrow> string list \<Rightarrow> string \<Rightarrow> error option \<times> identitydb" where
  "validate_identities cr db recipient_list ident =
     (case validate_recipients cr db recipient_list of
        (Some e, db') \<Rightarrow> (Some e, db')
      | (None, db') \<Rightarrow>
          (if ident \<notin> set (map fst (iddb db'))
           then (Some (CliArgumentError (user_msg ident)), db')
           else (None, db')))"

section \<open>Concrete surroundings on which the model is run\<close>

text \<open>
  A file system that is a table from directory paths to the names of their entries, with
  \<^verbatim>\<open>os\<close> functions that read and extend the table; a file written to \<open>dir/name\<close> becomes an
  entry \<open>name\<close> of the directory \<open>dir\<close>, which has to exist.
\<close>

type_synonym dir_table = "(string \<times> string list) list"

definition dirname_of :: "string \<Rightarrow> string" where
  "dirname_of p = rev (drop 1 (dropWhile (\<lambda>c. c \<noteq> CHR ''/'') (rev p)))"

definition basename_of :: "string \<Rightarrow> string" where
  "basename_of p = rev (takeWhile (\<lambda>c. c \<noteq> CHR ''/'') (rev p))"

definition table_os :: "dir_table os_module" where
  "table_os =
     \<lparr>listdir = (\<lambda>f p. case map_of f p of
                          None \<Rightarrow> Inl (OSError ''No such file or directory'')
                        | Some names \<Rightarrow> Inr names),
      path_exists = (\<lambda>f p. map_of f p \<noteq> None),
      isdir = (\<lambda>f p. map_of f p \<noteq> None),
      makedirs = (\<lambda>f p. (None, AList.update p [] f)),
      write_text = (\<lambda>f p content.
                      case map_of f (dirname_of p) of
                        None \<Rightarrow> (Some (OSError ''No such file or directory''), f)
                      | Some names \<Rightarrow>
                          (None, AList.update (dirname_of p)
                                   (if basename_of p \<in> set names then names
                                    else names @ [basename_of p]) f)),
      gettempdir = (\<lambda>f. ''/tmp'')\<rparr>"

text \<open>
  Certificate files: \<open>certs/a.crt\<close> holds one certificate, \<open>certs/ab.crt\<close> two, and no other
  file can be read. Chains verify against the trust anchor \<open>ca\<close> only.
\<close>

definition table_crypto :: crypto where
  "table_crypto =
     \<lparr>parse_file = (\<lambda>p. if p = ''certs/a.crt'' then Inr [''A'']
                          else if p = ''certs/ab.crt'' then Inr [''A'', ''B'']
                          else Inl (OSError ''No such file or directory'')),
      pk_verify_chain = (\<lambda>cert cab. Inr (cab = ''ca'')),
      get_cert_fingerprint = (\<lambda>cert. Inr (''fp-'' @ cert)),
      get_cert_subject = (\<lambda>cert. Inr (''subject-'' @ cert)),
      get_cert_issuer = (\<lambda>cert. Inr (''issuer-'' @ cert)),
      get_cert_enddate = (\<lambda>cert. Inr (''enddate-'' @ cert)),
      get_cert_issuerhash = (\<lambda>cert. Inr (''ih-'' @ cert)),
      get_cert_subjecthash = (\<lambda>cert. Inr (''sh-'' @ cert))\<rparr>"

text \<open>One connector, the class \<open>Ldap\<close> of the module \<open>ldap\<close>, with one certificate for \<open>y\<close>.\<close>

definition table_connectors :: connectors where
  "table_connectors modname clsname val =
     (if modname = ''ldap'' \<and> clsname = ''Ldap'' then Inr [(''y'', [''Y''])]
      else Inl (ExternalError ''ImportError''))"

text \<open>A certificate directory in which the file of \<open>b\<close> cannot be read, before the load, after it, and after the verification of every identity.\<close>

definition certs_dir_state :: "dir_table state" where
  "certs_dir_state =
     \<lparr>fs = [(''certs'', [''b.crt'', ''a.crt''])],
      identities = \<lparr>cabundle = ''ca'', iddb = []\<rparr>,
      invoked = []\<rparr>"

definition certs_dir_loaded :: "dir_table state" where
  "certs_dir_loaded =
     \<lparr>fs = [(''certs'', [''b.crt'', ''a.crt''])],
      identities = \<lparr>cabundle = ''ca'', iddb =
        [(''b'', \<lparr>uid = ''b'', certificate_path = Some ''certs/b.crt'', key_path = None,
                  id_cabundle = None, certs = None\<rparr>),
         (''a'', \<lparr>uid = ''a'', certificate_path = Some ''certs/a.crt'', key_path = None,
                  id_cabundle = None, certs = None\<rparr>)]\<rparr>,
      invoked = []\<rparr>"

definition certs_dir_verified :: "dir_table state" where
  "certs_dir_verified =
     \<lparr>fs = [(''certs'', [''b.crt'', ''a.crt''])],
      identities = \<lparr>cabundle = ''ca'', iddb =
        [(''b'', \<lparr>uid = ''b'', certificate_path = Some ''certs/b.crt'', key_path = None,
                  id_cabundle = Some ''ca'', certs = Some []\<rparr>),
         (''a'', \<lparr>uid = ''a'', certificate_path = Some ''certs/a.crt'', key_path = None,
                  id_cabundle = Some ''ca'',
                  certs = Some
                    [\<lparr>cert_bytes = ''A'', verified = True, fingerprint = ''fp-A'',
                      subject = ''subject-A'', issuer = ''issuer-A'', enddate = ''enddate-A'',
                      issuerhash = ''ih-A'', subjecthash = ''sh-A''\<rparr>]\<rparr>)]\<rparr>,
      invoked = []\<rparr>"

text \<open>A state in which the cache directory of the connector \<open>Ldap\<close> holds one certificate.\<close>

definition ldap_cached_state :: "dir_table state" where
  "ldap_cached_state =
     \<lparr>fs = [(''/tmp/Ldap'', [''x.cert''])], identities = init_identitydb, invoked = []\<rparr>"

section \<open>Properties of the string functions\<close>

lemma split_nonempty: "split c s \<noteq> []"
  by (induction s) (auto split: list.splits)

lemma hd_split: "hd (split c s) = takeWhile (\<lambda>x. x \<noteq> c) s"
  by (induction s) (auto split: list.splits simp: split_nonempty)

lemma takeWhile_stem:
  "CHR ''.'' \<notin> set stem \<Longrightarrow> ext \<noteq> [] \<Longrightarrow> hd ext = CHR ''.'' \<Longrightarrow>
   hd (split CHR ''.'' (stem @ ext)) = stem"
proof -
  assume a: "CHR ''.'' \<notin> set stem" "ext \<noteq> []" "hd ext = CHR ''.''"
  then obtain rest where e: "ext = CHR ''.'' # rest" by (cases ext) auto
  from a(1) have "takeWhile (\<lambda>x. x \<noteq> CHR ''.'') (stem @ CHR ''.'' # rest) = stem"
    by (induction stem) auto
  then show ?thesis by (simp add: hd_split e)
qed

lemma strip_plain:
  "strip '' alice'' = ''alice''" "strip ''alice'' = ''alice''"
  "strip ''team1'' = ''team1''" "strip '' team1 '' = ''team1''"
  "strip '' missing '' = ''missing''"
  "strip ''dave'' = ''dave''" "strip '' erin '' = ''erin''" "strip ''carol'' = ''carol''"
  by (simp_all add: strip_def isspace_def)

lemma map_const_replicate: "(\<forall>x\<in>set ys. f x = c) \<Longrightarrow> map f ys = replicate (length ys) c"
  by (induction ys) auto

section \<open>Properties of recipient resolution\<close>

lemma set_listing_remdups: "set_listing remdups"
  by (simp add: set_listing_def)

text \<open>Line 92 leaves a list under \<^verbatim>\<open>escrow_users\<close> whenever it raises nothing.\<close>

lemma split_escrow_users_list:
  "split_escrow_users a = Inr a' \<Longrightarrow> \<exists>es. a' ''escrow_users'' = Some (PList es)"
  by (auto simp: split_escrow_users_def split: option.splits if_splits pyval.splits)

lemma build_after_gather:
  assumes "gather_recipients a rl = (None, raw)"
  shows "build_recipient_list order a rl =
     (if [] \<in> set (map strip (order raw)) then Some NullRecipientError else None, map strip (order raw))"
  using assms by (simp add: build_recipient_list_def Let_def)

lemma gather_alice:
  "gather_recipients [''escrow_users'' \<mapsto> PList [], ''users'' \<mapsto> PStr ''alice, alice''] [] =
     (None, [''alice'', '' alice''])"
  by (simp add: gather_recipients_def configured_def)

lemma gather_comma:
  "gather_recipients [''escrow_users'' \<mapsto> PList [], ''users'' \<mapsto> PStr '',''] [] = (None, [[], []])"
  by (simp add: gather_recipients_def configured_def)

lemma group_members_ok:
  "\<forall>g\<in>set gs. \<exists>m. a (strip g) = Some (PStr m) \<Longrightarrow>
   group_members a gs acc = Inr (acc @ concat (map (members_of a) gs))"
  by (induction gs arbitrary: acc) (auto simp: members_of_def)

lemma group_members_missing:
  "\<forall>g\<in>set gs. a (strip g) = None \<or> (\<exists>m. a (strip g) = Some (PStr m)) \<Longrightarrow>
   \<exists>g\<in>set gs. a (strip g) = None \<Longrightarrow>
   \<exists>g\<in>set gs. a (strip g) = None \<and>
      group_members a gs acc = Inl (GroupDefinitionError (py_repr (strip g)))"
proof (induction gs arbitrary: acc)
  case Nil then show ?case by simp
next
  case (Cons g gs)
  show ?case
  proof (cases "a (strip g)")
    case None then show ?thesis by simp
  next
    case (Some v)
    with Cons.prems(1) obtain m where m: "a (strip g) = Some (PStr m)" by auto
    from Cons.prems m have "\<exists>g\<in>set gs. a (strip g) = None" by auto
    moreover from Cons.prems(1) have "\<forall>g\<in>set gs. a (strip g) = None \<or> (\<exists>m. a (strip g) = Some (PStr m))" by simp
    ultimately obtain g' where "g'\<in>set gs" "a (strip g') = None"
       "group_members a gs (acc @ split CHR '','' m) = Inl (GroupDefinitionError (py_repr (strip g')))"
      using Cons.IH by blast
    then show ?thesis using m by auto
  qed
qed

lemma gather_groups:
  assumes esc: "a ''escrow_users'' = Some (PList es)"
      and grp: "a ''groups'' = Some (PStr g)"
      and usr: "\<not> configured a ''users'' \<or> (\<exists>u. a ''users'' = Some (PStr u))"
      and mem: "parse_group_membership a = Inr ms"
  shows "\<exists>us. gather_recipients a rl = (None, rl @ es @ ms @ us)"
  using assms by (auto simp: gather_recipients_def configured_def)

lemma gather_groups_error:
  assumes esc: "a ''escrow_users'' = Some (PList es)"
      and grp: "a ''groups'' = Some (PStr g)"
      and mem: "parse_group_membership a = Inl e"
  shows "gather_recipients a rl = (Some e, rl @ es)"
  using assms by (simp add: gather_recipients_def configured_def)

text \<open>
  Claim C3. The recipient list that \<^verbatim>\<open>_build_recipient_list\<close> leaves is stripped, but it is
  made a set before it is stripped: for \<^verbatim>\<open>users="alice, alice"\<close> the two entries
  \<^verbatim>\<open>"alice"\<close> and \<^verbatim>\<open>" alice"\<close> are different members of the set, and whatever the order
  in which the set is listed the result holds \<^verbatim>\<open>"alice"\<close> twice.
\<close>

theorem build_recipient_list_duplicate:
  assumes "set_listing order"
  shows "build_recipient_list order
           [''escrow_users'' \<mapsto> PList [], ''users'' \<mapsto> PStr ''alice, alice''] [] =
         (None, [''alice'', ''alice''])"
proof -
  let ?raw = "[''alice'', '' alice'']"
  let ?ys = "order ?raw"
  from assms have d: "distinct ?ys" and s: "set ?ys = set ?raw"
    by (simp_all add: set_listing_def)
  have "length ?ys = card (set ?ys)" using d by (simp add: distinct_card)
  also have "\<dots> = 2" unfolding s by simp
  finally have len: "length ?ys = 2" .
  have "\<forall>x\<in>set ?ys. strip x = ''alice''" unfolding s by (simp add: strip_plain)
  then have "map strip ?ys = replicate (length ?ys) ''alice''" by (rule map_const_replicate)
  then have m: "map strip ?ys = [''alice'', ''alice'']" by (simp add: len numeral_2_eq_2)
  show ?thesis
    unfolding build_after_gather [OF gather_alice] m by simp
qed

theorem build_recipient_list_duplicate_witness:
  "set_listing remdups \<and>
   build_recipient_list remdups
     [''escrow_users'' \<mapsto> PList [], ''users'' \<mapsto> PStr ''alice, alice''] [] =
   (None, [''alice'', ''alice'']) \<and>
   \<not> distinct [''alice'', ''alice'']"
  using build_recipient_list_duplicate [OF set_listing_remdups] set_listing_remdups by simp

text \<open>
  Claim C4. When the escrow users, the group members and the users have been gathered
  without an exception and one of the gathered entries is empty once stripped,
  \<^verbatim>\<open>_build_recipient_list\<close> raises \<^verbatim>\<open>NullRecipientError\<close>; \<^verbatim>\<open>users=","\<close> is such a
  configuration.
\<close>

theorem null_recipient_rejected:
  assumes "set_listing order"
      and "gather_recipients a rl = (None, raw)"
      and "\<exists>x\<in>set raw. strip x = []"
  shows "fst (build_recipient_list order a rl) = Some NullRecipientError"
proof -
  from assms(1) have "set (order raw) = set raw" by (simp add: set_listing_def)
  with assms(3) have "[] \<in> set (map strip (order raw))" by force
  then show ?thesis by (simp add: build_after_gather [OF assms(2)])
qed

theorem null_recipient_rejected_witness:
  "set_listing remdups \<and>
   gather_recipients [''escrow_users'' \<mapsto> PList [], ''users'' \<mapsto> PStr '',''] [] = (None, [[], []]) \<and>
   (\<exists>x\<in>set [[], []]. strip x = []) \<and>
   fst (build_recipient_list remdups [''escrow_users'' \<mapsto> PList [], ''users'' \<mapsto> PStr '',''] []) =
     Some NullRecipientError \<and>
   gather_recipients [''escrow_users'' \<mapsto> PList [], ''users'' \<mapsto> PStr (''bob, '' @ [CHR 0xA0])] [] =
     (None, [''bob'', '' '' @ [CHR 0xA0]]) \<and>
   (\<exists>x\<in>set [''bob'', '' '' @ [CHR 0xA0]]. strip x = []) \<and>
   fst (build_recipient_list remdups
          [''escrow_users'' \<mapsto> PList [], ''users'' \<mapsto> PStr (''bob, '' @ [CHR 0xA0])] []) =
     Some NullRecipientError"
proof -
  have s: "\<exists>x\<in>set [[], []]. strip x = []" by (simp add: strip_def)
  have g: "gather_recipients [''escrow_users'' \<mapsto> PList [], ''users'' \<mapsto> PStr (''bob, '' @ [CHR 0xA0])] [] =
     (None, [''bob'', '' '' @ [CHR 0xA0]])"
    by (simp add: gather_recipients_def configured_def)
  have t: "\<exists>x\<in>set [''bob'', '' '' @ [CHR 0xA0]]. strip x = []"
    by (simp add: strip_def isspace_def)
  show ?thesis
    using null_recipient_rejected [OF set_listing_remdups gather_comma s]
          null_recipient_rejected [OF set_listing_remdups g t]
          set_listing_remdups gather_comma s g t
    by simp
qed

text \<open>
  Claim C5. With the escrow users a list, \<^verbatim>\<open>groups\<close> a string and \<^verbatim>\<open>users\<close> a string or not
  configured: when every group name, stripped, is a key that holds a string,
  \<^verbatim>\<open>_parse_group_membership\<close> returns the members of the groups in order, and each of them,
  stripped, is in the recipient list afterwards; when the keys of the group names hold
  strings or are missing and one is missing, \<^verbatim>\<open>_build_recipient_list\<close> raises
  \<^verbatim>\<open>GroupDefinitionError\<close> with the \<^verbatim>\<open>repr\<close> of a missing key, stripped, as its message,
  the list holding the escrow users only.
\<close>

theorem group_expansion:
  assumes esc: "a ''escrow_users'' = Some (PList es)"
      and grp: "a ''groups'' = Some (PStr g)"
      and usr: "\<not> configured a ''users'' \<or> (\<exists>u. a ''users'' = Some (PStr u))"
      and ord: "set_listing order"
  shows "((\<forall>gr\<in>set (split CHR '','' g). \<exists>m. a (strip gr) = Some (PStr m)) \<longrightarrow>
            parse_group_membership a = Inr (concat (map (members_of a) (split CHR '','' g))) \<and>
            (\<forall>gr\<in>set (split CHR '','' g). \<forall>m\<in>set (members_of a gr).
               strip m \<in> set (snd (build_recipient_list order a rl))))
       \<and> ((\<forall>gr\<in>set (split CHR '','' g). a (strip gr) = None \<or> (\<exists>m. a (strip gr) = Some (PStr m))) \<and>
          (\<exists>gr\<in>set (split CHR '','' g). a (strip gr) = None) \<longrightarrow>
            (\<exists>gr\<in>set (split CHR '','' g). a (strip gr) = None \<and>
               build_recipient_list order a rl =
                 (Some (GroupDefinitionError (py_repr (strip gr))), rl @ es)))"
proof (intro conjI impI)
  assume all: "\<forall>gr\<in>set (split CHR '','' g). \<exists>m. a (strip gr) = Some (PStr m)"
  let ?ms = "concat (map (members_of a) (split CHR '','' g))"
  show pgm: "parse_group_membership a = Inr ?ms"
    using group_members_ok [OF all, of "[]"] grp by (simp add: parse_group_membership_def)
  from gather_groups [OF esc grp usr pgm, of rl]
  obtain us where ga: "gather_recipients a rl = (None, rl @ es @ ?ms @ us)" by blast
  from ord have so: "set (order (rl @ es @ ?ms @ us)) = set (rl @ es @ ?ms @ us)"
    by (simp add: set_listing_def)
  show "\<forall>gr\<in>set (split CHR '','' g). \<forall>m\<in>set (members_of a gr).
          strip m \<in> set (snd (build_recipient_list order a rl))"
  proof (intro ballI)
    fix gr m assume "gr \<in> set (split CHR '','' g)" "m \<in> set (members_of a gr)"
    then have "m \<in> set (order (rl @ es @ ?ms @ us))" unfolding so by auto
    then show "strip m \<in> set (snd (build_recipient_list order a rl))"
      by (simp add: build_after_gather [OF ga])
  qed
next
  assume h: "(\<forall>gr\<in>set (split CHR '','' g). a (strip gr) = None \<or> (\<exists>m. a (strip gr) = Some (PStr m))) \<and>
          (\<exists>gr\<in>set (split CHR '','' g). a (strip gr) = None)"
  then obtain gr where gr: "gr \<in> set (split CHR '','' g)" "a (strip gr) = None"
      "group_members a (split CHR '','' g) [] = Inl (GroupDefinitionError (py_repr (strip gr)))"
    using group_members_missing [of "split CHR '','' g" a "[]"] by blast
  from gr(3) grp have "parse_group_membership a = Inl (GroupDefinitionError (py_repr (strip gr)))"
    by (simp add: parse_group_membership_def)
  from gather_groups_error [OF esc grp this, of rl]
  have "build_recipient_list order a rl =
          (Some (GroupDefinitionError (py_repr (strip gr))), rl @ es)"
    by (simp add: build_recipient_list_def)
  with gr show "\<exists>gr\<in>set (split CHR '','' g). a (strip gr) = None \<and>
               build_recipient_list order a rl =
                 (Some (GroupDefinitionError (py_repr (strip gr))), rl @ es)"
    by blast
qed

lemma split_groups_example:
  "split CHR '','' '' team1 '' = ['' team1 '']"
  "split CHR '','' ''team1, missing '' = [''team1'', '' missing '']"
  "split CHR '','' ''dave, erin '' = [''dave'', '' erin '']"
  by simp_all

lemma py_repr_missing: "py_repr ''missing'' = [CHR 0x27] @ ''missing'' @ [CHR 0x27]"
  by (simp add: py_repr_def repr_char_def Let_def)

theorem group_expansion_witness:
  "(let a = [''escrow_users'' \<mapsto> PList [''carol''], ''groups'' \<mapsto> PStr '' team1 '',
             ''team1'' \<mapsto> PStr ''dave, erin '']
    in a ''escrow_users'' = Some (PList [''carol'']) \<and> a ''groups'' = Some (PStr '' team1 '') \<and>
       \<not> configured a ''users'' \<and> set_listing remdups \<and>
       (\<forall>gr\<in>set (split CHR '','' '' team1 ''). \<exists>m. a (strip gr) = Some (PStr m)) \<and>
       parse_group_membership a = Inr [''dave'', '' erin ''] \<and>
       build_recipient_list remdups a [] = (None, [''carol'', ''dave'', ''erin''])) \<and>
   (let a = [''escrow_users'' \<mapsto> PList [''carol''], ''groups'' \<mapsto> PStr ''team1, missing '',
             ''team1'' \<mapsto> PStr ''dave, erin '']
    in a ''escrow_users'' = Some (PList [''carol'']) \<and>
       a ''groups'' = Some (PStr ''team1, missing '') \<and>
       \<not> configured a ''users'' \<and>
       (\<forall>gr\<in>set (split CHR '','' ''team1, missing '').
           a (strip gr) = None \<or> (\<exists>m. a (strip gr) = Some (PStr m))) \<and>
       a (strip '' missing '') = None \<and>
       build_recipient_list remdups a [] =
         (Some (GroupDefinitionError ([CHR 0x27] @ ''missing'' @ [CHR 0x27])), [''carol'']))"
proof -
  let ?a = "[''escrow_users'' \<mapsto> PList [''carol''], ''groups'' \<mapsto> PStr '' team1 '',
             ''team1'' \<mapsto> PStr ''dave, erin '']"
  let ?b = "[''escrow_users'' \<mapsto> PList [''carol''], ''groups'' \<mapsto> PStr ''team1, missing '',
             ''team1'' \<mapsto> PStr ''dave, erin '']"
  have a1: "?a ''escrow_users'' = Some (PList [''carol''])"
    and a2: "?a ''groups'' = Some (PStr '' team1 '')"
    and a3: "\<not> configured ?a ''users'' \<or> (\<exists>u. ?a ''users'' = Some (PStr u))"
    by (simp_all add: configured_def)
  have b1: "?b ''escrow_users'' = Some (PList [''carol''])"
    and b2: "?b ''groups'' = Some (PStr ''team1, missing '')"
    and b3: "\<not> configured ?b ''users'' \<or> (\<exists>u. ?b ''users'' = Some (PStr u))"
    by (simp_all add: configured_def)
  have run: "build_recipient_list remdups ?a [] = (None, [''carol'', ''dave'', ''erin''])"
    by (simp add: build_recipient_list_def gather_recipients_def configured_def
          parse_group_membership_def strip_plain Let_def)
  show ?thesis
    using group_expansion [OF a1 a2 a3 set_listing_remdups, of "[]"]
          group_expansion [OF b1 b2 b3 set_listing_remdups, of "[]"]
          set_listing_remdups run
    by (simp add: Let_def configured_def strip_plain members_of_def split_groups_example
          py_repr_missing del: split.simps)
qed

section \<open>Properties of the validation of the recipients\<close>

text \<open>
  Claim C2. \<^verbatim>\<open>_validate_identities\<close> calls \<^verbatim>\<open>verify_identity\<close> with the recipient alone, and
  the method requires \<^verbatim>\<open>results\<close> as well: for every list with a recipient, in the
  database or not, the call raises \<^verbatim>\<open>TypeError\<close> at the first one, the database is as it
  was, and neither the membership test of the recipients nor that of the operator is
  reached.
\<close>

theorem validate_identities_type_error:
  "recipient_list \<noteq> [] \<Longrightarrow>
   validate_identities cr db recipient_list ident = (Some TypeError, db)"
  by (cases recipient_list) (simp_all add: validate_identities_def call_verify_identity_def)

theorem validate_identities_type_error_witness:
  "[''alice''] \<noteq> [] \<and> map_of (iddb init_identitydb) ''alice'' = None \<and>
   validate_identities table_crypto init_identitydb [''alice''] ''operator'' =
     (Some TypeError, init_identitydb)"
  using validate_identities_type_error [of "[''alice'']" table_crypto init_identitydb "''operator''"]
  by (simp add: init_identitydb_def)

section \<open>Properties of loading from a directory\<close>

lemma set_path_twice: "set_path ft p (set_path ft q r) = set_path ft p r"
  by (cases ft) simp_all

lemma path_of_set_path: "path_of ft' (set_path ft p r) = (if ft' = ft then Some p else path_of ft' r)"
  by (cases ft; cases ft') simp_all

lemma set_path_fields:
  "uid (set_path ft p r) = uid r" "id_cabundle (set_path ft p r) = id_cabundle r"
  "certs (set_path ft p r) = certs r"
  by (cases ft; simp)+

lemma load_file_other:
  "k \<noteq> hd (split CHR ''.'' fname) \<Longrightarrow> map_of (load_file path ft d fname) k = map_of d k"
  by (simp add: load_file_def Let_def update_conv' split: option.splits)

lemma load_file_nomatch:
  "\<not> endswith_any fname (tuple_of (extensions ft)) \<Longrightarrow> load_file path ft d fname = d"
  by (simp add: load_file_def)

lemma load_file_match:
  "endswith_any fname (tuple_of (extensions ft)) \<Longrightarrow>
   map_of (load_file path ft d fname) (hd (split CHR ''.'' fname)) =
     Some (case map_of d (hd (split CHR ''.'' fname)) of
             Some r \<Rightarrow> set_path ft (os_path_join path fname) r
           | None \<Rightarrow> new_identity (hd (split CHR ''.'' fname)) ft (os_path_join path fname))"
  by (simp add: load_file_def Let_def update_conv' split: option.splits)

lemma load_file_keys:
  "fst ` set (load_file path ft d fname) =
     (if endswith_any fname (tuple_of (extensions ft))
      then insert (hd (split CHR ''.'' fname)) (fst ` set d) else fst ` set d)"
  by (simp add: load_file_def Let_def dom_update split: option.splits)

lemma load_file_distinct:
  "distinct (map fst d) \<Longrightarrow> distinct (map fst (load_file path ft d fname))"
  by (simp add: load_file_def Let_def distinct_update split: option.splits)

lemma load_file_keeps:
  assumes "map_of d k = Some r"
  shows "map_of (load_file path ft d fname) k = Some r \<or>
         map_of (load_file path ft d fname) k = Some (set_path ft (os_path_join path fname) r)"
  using assms by (auto simp: load_file_def Let_def update_conv' split: option.splits)

lemma set_update_subset: "set (AList.update k v al) \<subseteq> insert (k, v) (set al)"
  by (induction al) auto

lemma uid_keyed_update: "uid_keyed d \<Longrightarrow> uid r = k \<Longrightarrow> uid_keyed (AList.update k r d)"
  using set_update_subset [of k r d] by (auto simp: uid_keyed_def list_all_iff)

lemma uid_keyed_map_of: "uid_keyed d \<Longrightarrow> map_of d k = Some r \<Longrightarrow> uid r = k"
  by (auto simp: uid_keyed_def list_all_iff dest: map_of_SomeD)

lemma load_file_uid_keyed:
  assumes "uid_keyed d" shows "uid_keyed (load_file path ft d fname)"
  using assms
  by (auto simp: load_file_def Let_def new_identity_def set_path_fields
           intro!: uid_keyed_update dest: uid_keyed_map_of split: option.splits)

lemma load_files_distinct:
  "distinct (map fst d) \<Longrightarrow> distinct (map fst (load_files path ft fnames d))"
  by (induction fnames arbitrary: d) (simp_all add: load_file_distinct)

lemma load_files_uid_keyed:
  "uid_keyed d \<Longrightarrow> uid_keyed (load_files path ft fnames d)"
  by (induction fnames arbitrary: d) (simp_all add: load_file_uid_keyed)

lemma load_files_keys:
  "fst ` set (load_files path ft fnames d) =
     fst ` set d \<union> {hd (split CHR ''.'' fn) | fn. fn \<in> set fnames \<and> endswith_any fn (tuple_of (extensions ft))}"
  by (induction fnames arbitrary: d) (auto simp: load_file_keys)

lemma load_files_keeps:
  "map_of d k = Some r \<Longrightarrow>
   map_of (load_files path ft fnames d) k = Some r \<or>
   (\<exists>fn\<in>set fnames. map_of (load_files path ft fnames d) k = Some (set_path ft (os_path_join path fn) r))"
proof (induction fnames arbitrary: d r)
  case Nil then show ?case by simp
next
  case (Cons f fs)
  from load_file_keeps [OF Cons.prems, of path ft f]
  show ?case
  proof
    assume "map_of (load_file path ft d f) k = Some r"
    from Cons.IH [OF this] show ?thesis by auto
  next
    assume "map_of (load_file path ft d f) k = Some (set_path ft (os_path_join path f) r)"
    from Cons.IH [OF this] show ?thesis by (auto simp: set_path_twice)
  qed
qed

lemma load_files_sets_path:
  "fname \<in> set fnames \<Longrightarrow> endswith_any fname (tuple_of (extensions ft)) \<Longrightarrow>
   \<exists>r. map_of (load_files path ft fnames d) (hd (split CHR ''.'' fname)) = Some r \<and>
       (\<exists>fn\<in>set fnames. endswith_any fn (tuple_of (extensions ft)) \<and>
          hd (split CHR ''.'' fn) = hd (split CHR ''.'' fname) \<and>
          path_of ft r = Some (os_path_join path fn))"
proof (induction fnames rule: rev_induct)
  case Nil then show ?case by simp
next
  case (snoc f fs)
  let ?u = "hd (split CHR ''.'' fname)"
  let ?d = "load_files path ft fs d"
  have step: "load_files path ft (fs @ [f]) d = load_file path ft ?d f" by simp
  show ?case
  proof (cases "endswith_any f (tuple_of (extensions ft)) \<and> hd (split CHR ''.'' f) = ?u")
    case True
    then have m: "endswith_any f (tuple_of (extensions ft))"
      and u: "hd (split CHR ''.'' f) = ?u" by auto
    from load_file_match [OF m, of path ?d]
    obtain r where "map_of (load_file path ft ?d f) (hd (split CHR ''.'' f)) = Some r"
        "path_of ft r = Some (os_path_join path f)"
      by (auto simp: path_of_set_path new_identity_def split: option.splits)
    then have "map_of (load_file path ft ?d f) ?u = Some r"
        "path_of ft r = Some (os_path_join path f)"
      unfolding u by simp_all
    with True show ?thesis unfolding step by auto
  next
    case False
    then have same: "map_of (load_file path ft ?d f) ?u = map_of ?d ?u"
      using load_file_other [of ?u f path ft ?d] load_file_nomatch [of f ft path ?d] by auto
    from False snoc.prems have "fname \<in> set fs" by auto
    from snoc.IH [OF this snoc.prems(2)] show ?thesis unfolding step same by auto
  qed
qed

lemma files_for_snoc:
  "files_for ft (fnames @ [fname]) k =
     files_for ft fnames k @
       (if endswith_any fname (tuple_of (extensions ft)) \<and> hd (split CHR ''.'' fname) = k
        then [fname] else [])"
  by (simp add: files_for_def)

lemma set_path_new_identity: "set_path ft p (new_identity k ft q) = new_identity k ft p"
  by (cases ft) (simp_all add: new_identity_def)

lemma load_files_exact:
  "map_of (load_files path ft fnames d) k =
     (if files_for ft fnames k = [] then map_of d k
      else Some (case map_of d k of
                   Some r \<Rightarrow> set_path ft (os_path_join path (last (files_for ft fnames k))) r
                 | None \<Rightarrow> new_identity k ft (os_path_join path (last (files_for ft fnames k)))))"
proof (induction fnames rule: rev_induct)
  case Nil then show ?case by (simp add: files_for_def)
next
  case (snoc fname fnames)
  let ?d = "load_files path ft fnames d"
  have step: "load_files path ft (fnames @ [fname]) d = load_file path ft ?d fname" by simp
  show ?case
  proof (cases "endswith_any fname (tuple_of (extensions ft)) \<and> hd (split CHR ''.'' fname) = k")
    case True
    then have m: "endswith_any fname (tuple_of (extensions ft))"
      and k: "hd (split CHR ''.'' fname) = k" by auto
    have ff: "files_for ft (fnames @ [fname]) k = files_for ft fnames k @ [fname]"
      using True by (simp add: files_for_snoc)
    have "map_of (load_file path ft ?d fname) k =
            Some (case map_of ?d k of
                    Some r \<Rightarrow> set_path ft (os_path_join path fname) r
                  | None \<Rightarrow> new_identity k ft (os_path_join path fname))"
      using load_file_match [OF m, of path ?d] unfolding k .
    then show ?thesis
      unfolding step ff snoc.IH
      by (simp add: set_path_twice set_path_new_identity split: option.splits)
  next
    case False
    then have same: "map_of (load_file path ft ?d fname) k = map_of ?d k"
      using load_file_other [of k fname path ft ?d] load_file_nomatch [of fname ft path ?d] by auto
    have ff: "files_for ft (fnames @ [fname]) k = files_for ft fnames k"
      using False by (simp add: files_for_snoc)
    show ?thesis unfolding step same ff snoc.IH ..
  qed
qed

lemma load_from_directory_Inr:
  "listdir os f path = Inr fnames \<Longrightarrow>
   load_from_directory os f db path ft = Inr (db\<lparr>iddb := load_files path ft fnames (iddb db)\<rparr>)"
  by (simp add: load_from_directory_def)

lemma load_from_directory_InrD:
  "load_from_directory os f db path ft = Inr db' \<Longrightarrow>
   \<exists>fnames. listdir os f path = Inr fnames \<and> db' = db\<lparr>iddb := load_files path ft fnames (iddb db)\<rparr>"
  by (auto simp: load_from_directory_def split: sum.splits error.splits)

lemmas run_load = load_from_directory_def load_keys_from_directory_def load_file_def table_os_def
  endswith_any_def endswith_def os_path_join_def new_identity_def init_identitydb_def Let_def

text \<open>
  Claim C6. The uid that \<^verbatim>\<open>_load_from_directory\<close> gives a file is its name up to the first
  dot (\<^verbatim>\<open>fname.split('.')[0]\<close>), which is the name without its extension only when the
  rest of the name has no dot. When the directory can be listed, each file whose name ends
  with one of the extensions of the artifact type sets the path of exactly one identity,
  the one with this uid: the identity is in the database afterwards with the path of a file
  of the directory that has this uid, no other identity is touched by the file, and the
  keys of the database are the earlier ones and these uids. So \<open>john.doe.crt\<close> and
  \<open>john.smith.crt\<close> are one identity \<open>john\<close>, and neither \<open>john.doe\<close> nor \<open>john.smith\<close> is
  an identity.
\<close>

theorem load_uid_first_dot:
  assumes ls: "listdir os f path = Inr fnames"
      and fn: "fname \<in> set fnames"
      and ext: "endswith_any fname (tuple_of (extensions ft))"
  shows "(\<exists>db'. load_from_directory os f db path ft = Inr db' \<and>
           (\<exists>r. map_of (iddb db') (hd (split CHR ''.'' fname)) = Some r \<and>
                (\<exists>fn\<in>set fnames. endswith_any fn (tuple_of (extensions ft)) \<and>
                   hd (split CHR ''.'' fn) = hd (split CHR ''.'' fname) \<and>
                   path_of ft r = Some (os_path_join path fn))) \<and>
           fst ` set (iddb db') = fst ` set (iddb db) \<union>
             {hd (split CHR ''.'' fn) | fn. fn \<in> set fnames \<and> endswith_any fn (tuple_of (extensions ft))}) \<and>
         (\<forall>d k. k \<noteq> hd (split CHR ''.'' fname) \<longrightarrow> map_of (load_file path ft d fname) k = map_of d k) \<and>
         hd (split CHR ''.'' fname) = takeWhile (\<lambda>c. c \<noteq> CHR ''.'') fname \<and>
         (\<forall>stem ext. fname = stem @ ext \<and> CHR ''.'' \<notin> set stem \<and> ext \<in> {''.cert'', ''.crt'', ''.key''} \<longrightarrow>
            hd (split CHR ''.'' fname) = stem)"
proof (intro conjI)
  show "\<exists>db'. load_from_directory os f db path ft = Inr db' \<and>
           (\<exists>r. map_of (iddb db') (hd (split CHR ''.'' fname)) = Some r \<and>
                (\<exists>fn\<in>set fnames. endswith_any fn (tuple_of (extensions ft)) \<and>
                   hd (split CHR ''.'' fn) = hd (split CHR ''.'' fname) \<and>
                   path_of ft r = Some (os_path_join path fn))) \<and>
           fst ` set (iddb db') = fst ` set (iddb db) \<union>
             {hd (split CHR ''.'' fn) | fn. fn \<in> set fnames \<and> endswith_any fn (tuple_of (extensions ft))}"
    using load_files_sets_path [OF fn ext, of path "iddb db"]
    by (simp add: load_from_directory_Inr [OF ls] load_files_keys)
  show "\<forall>d k. k \<noteq> hd (split CHR ''.'' fname) \<longrightarrow> map_of (load_file path ft d fname) k = map_of d k"
    by (simp add: load_file_other)
  show "hd (split CHR ''.'' fname) = takeWhile (\<lambda>c. c \<noteq> CHR ''.'') fname"
    by (rule hd_split)
  show "\<forall>stem ext. fname = stem @ ext \<and> CHR ''.'' \<notin> set stem \<and> ext \<in> {''.cert'', ''.crt'', ''.key''} \<longrightarrow>
           hd (split CHR ''.'' fname) = stem"
    by (auto simp: takeWhile_stem)
qed

theorem load_uid_first_dot_witness:
  "listdir table_os [(''dir'', [''john.doe.crt'', ''john.smith.crt''])] ''dir'' =
     Inr [''john.doe.crt'', ''john.smith.crt''] \<and>
   ''john.doe.crt'' \<in> set [''john.doe.crt'', ''john.smith.crt''] \<and>
   endswith_any ''john.doe.crt'' (tuple_of (extensions Certificate)) \<and>
   endswith_any ''john.smith.crt'' (tuple_of (extensions Certificate)) \<and>
   hd (split CHR ''.'' ''john.doe.crt'') = ''john'' \<and>
   hd (split CHR ''.'' ''john.smith.crt'') = ''john'' \<and>
   ''john'' @ ''.crt'' \<noteq> ''john.doe.crt'' \<and>
   load_from_directory table_os [(''dir'', [''john.doe.crt'', ''john.smith.crt''])]
     init_identitydb ''dir'' Certificate =
     Inr \<lparr>cabundle = [], iddb =
       [(''john'', \<lparr>uid = ''john'', certificate_path = Some ''dir/john.smith.crt'',
                    key_path = None, id_cabundle = None, certs = None\<rparr>)]\<rparr>"
proof -
  have ls: "listdir table_os [(''dir'', [''john.doe.crt'', ''john.smith.crt''])] ''dir'' =
     Inr [''john.doe.crt'', ''john.smith.crt'']"
    by (simp add: table_os_def)
  have fn: "''john.doe.crt'' \<in> set [''john.doe.crt'', ''john.smith.crt'']" by simp
  have ext: "endswith_any ''john.doe.crt'' (tuple_of (extensions Certificate))"
    by (simp add: endswith_any_def endswith_def)
  show ?thesis
    using load_uid_first_dot [OF ls fn ext, of init_identitydb] ls fn ext
    by (simp add: run_load)
qed

text \<open>
  The directory of the claim: \<open>a.crt\<close>, \<open>b.cert\<close> and \<open>c.key\<close> give the identities \<open>a\<close> and
  \<open>b\<close> with a certificate path and \<open>c\<close> with a key path only.
\<close>

lemma load_claimed_directory:
  "load_from_directory table_os [(''dir'', [''a.crt'', ''b.cert'', ''c.key''])] init_identitydb ''dir'' Certificate =
     Inr \<lparr>cabundle = [], iddb =
       [(''a'', \<lparr>uid = ''a'', certificate_path = Some ''dir/a.crt'', key_path = None, id_cabundle = None, certs = None\<rparr>),
        (''b'', \<lparr>uid = ''b'', certificate_path = Some ''dir/b.cert'', key_path = None, id_cabundle = None, certs = None\<rparr>)]\<rparr> \<and>
   load_keys_from_directory table_os [(''dir'', [''a.crt'', ''b.cert'', ''c.key''])]
     \<lparr>cabundle = [], iddb =
       [(''a'', \<lparr>uid = ''a'', certificate_path = Some ''dir/a.crt'', key_path = None, id_cabundle = None, certs = None\<rparr>),
        (''b'', \<lparr>uid = ''b'', certificate_path = Some ''dir/b.cert'', key_path = None, id_cabundle = None, certs = None\<rparr>)]\<rparr>
     ''dir'' =
     Inr \<lparr>cabundle = [], iddb =
       [(''a'', \<lparr>uid = ''a'', certificate_path = Some ''dir/a.crt'', key_path = None, id_cabundle = None, certs = None\<rparr>),
        (''b'', \<lparr>uid = ''b'', certificate_path = Some ''dir/b.cert'', key_path = None, id_cabundle = None, certs = None\<rparr>),
        (''c'', \<lparr>uid = ''c'', certificate_path = None, key_path = Some ''dir/c.key'', id_cabundle = None, certs = None\<rparr>)]\<rparr>"
  by (simp add: run_load)

text \<open>
  Claim C7. A load that succeeds has listed the directory, and for every uid the record
  afterwards is determined by the files that the listing has for this uid and artifact
  type. With no such file the record, or its absence, is as before. With such files an
  identity that was in the database is still there, with the path of the artifact type
  overwritten by the path of the last of these files and its uid, its path of the other
  type, its trust anchor and its certificates as before; an identity that was not there
  is new, with this path only. The keys stay distinct, every record stays under its own
  uid, no key is lost, and the trust anchor of the database stays.
\<close>

theorem load_upsert:
  assumes "load_from_directory os f db path ft = Inr db'"
  shows "\<exists>fnames. listdir os f path = Inr fnames \<and>
           (\<forall>k. map_of (iddb db') k =
              (if files_for ft fnames k = [] then map_of (iddb db) k
               else Some (case map_of (iddb db) k of
                     Some r \<Rightarrow> set_path ft (os_path_join path (last (files_for ft fnames k))) r
                   | None \<Rightarrow> new_identity k ft (os_path_join path (last (files_for ft fnames k)))))) \<and>
           (\<forall>k r. map_of (iddb db) k = Some r \<and> files_for ft fnames k \<noteq> [] \<longrightarrow>
              (\<exists>r'. map_of (iddb db') k = Some r' \<and>
                 path_of ft r' = Some (os_path_join path (last (files_for ft fnames k))) \<and>
                 (\<forall>ft'. ft' \<noteq> ft \<longrightarrow> path_of ft' r' = path_of ft' r) \<and>
                 uid r' = uid r \<and> id_cabundle r' = id_cabundle r \<and> certs r' = certs r)) \<and>
           (\<forall>k r. map_of (iddb db) k = Some r \<longrightarrow>
              (\<exists>r'. map_of (iddb db') k = Some r' \<and> (r' = r \<or> (\<exists>p. r' = set_path ft p r)) \<and>
                    (\<forall>ft'. ft' \<noteq> ft \<longrightarrow> path_of ft' r' = path_of ft' r))) \<and>
           (distinct (map fst (iddb db)) \<longrightarrow> distinct (map fst (iddb db'))) \<and>
           (uid_keyed (iddb db) \<longrightarrow> uid_keyed (iddb db')) \<and>
           fst ` set (iddb db) \<subseteq> fst ` set (iddb db') \<and>
           cabundle db' = cabundle db"
proof -
  from load_from_directory_InrD [OF assms] obtain fnames
    where ls: "listdir os f path = Inr fnames"
      and db': "db' = db\<lparr>iddb := load_files path ft fnames (iddb db)\<rparr>" by blast
  have exact: "map_of (iddb db') k =
              (if files_for ft fnames k = [] then map_of (iddb db) k
               else Some (case map_of (iddb db) k of
                     Some r \<Rightarrow> set_path ft (os_path_join path (last (files_for ft fnames k))) r
                   | None \<Rightarrow> new_identity k ft (os_path_join path (last (files_for ft fnames k)))))"
    for k by (simp add: db' load_files_exact)
  have over: "\<exists>r'. map_of (iddb db') k = Some r' \<and>
                 path_of ft r' = Some (os_path_join path (last (files_for ft fnames k))) \<and>
                 (\<forall>ft'. ft' \<noteq> ft \<longrightarrow> path_of ft' r' = path_of ft' r) \<and>
                 uid r' = uid r \<and> id_cabundle r' = id_cabundle r \<and> certs r' = certs r"
    if "map_of (iddb db) k = Some r \<and> files_for ft fnames k \<noteq> []" for k r
    using that by (simp add: exact path_of_set_path set_path_fields)
  have keep: "\<exists>r'. map_of (iddb db') k = Some r' \<and> (r' = r \<or> (\<exists>p. r' = set_path ft p r)) \<and>
                  (\<forall>ft'. ft' \<noteq> ft \<longrightarrow> path_of ft' r' = path_of ft' r)"
    if "map_of (iddb db) k = Some r" for k r
    using load_files_keeps [OF that, of path ft fnames]
    by (auto simp: db' path_of_set_path)
  have rest: "(distinct (map fst (iddb db)) \<longrightarrow> distinct (map fst (iddb db'))) \<and>
           (uid_keyed (iddb db) \<longrightarrow> uid_keyed (iddb db')) \<and>
           fst ` set (iddb db) \<subseteq> fst ` set (iddb db') \<and>
           cabundle db' = cabundle db"
    by (auto simp: db' load_files_distinct load_files_uid_keyed load_files_keys)
  from ls exact over keep rest show ?thesis by blast
qed

theorem load_upsert_witness:
  "load_from_directory table_os
     [(''certs'', [''x.crt'', ''x.cert'']), (''keys'', [''x.key''])]
     \<lparr>cabundle = [], iddb =
       [(''x'', \<lparr>uid = ''x'', certificate_path = Some ''old/x.crt'', key_path = None,
                 id_cabundle = None, certs = None\<rparr>)]\<rparr>
     ''certs'' Certificate =
   Inr \<lparr>cabundle = [], iddb =
       [(''x'', \<lparr>uid = ''x'', certificate_path = Some ''certs/x.cert'', key_path = None,
                 id_cabundle = None, certs = None\<rparr>)]\<rparr> \<and>
   load_from_directory table_os
     [(''certs'', [''x.crt'', ''x.cert'']), (''keys'', [''x.key''])]
     \<lparr>cabundle = [], iddb =
       [(''x'', \<lparr>uid = ''x'', certificate_path = Some ''certs/x.cert'', key_path = None,
                 id_cabundle = None, certs = None\<rparr>)]\<rparr>
     ''keys'' Key =
   Inr \<lparr>cabundle = [], iddb =
       [(''x'', \<lparr>uid = ''x'', certificate_path = Some ''certs/x.cert'',
                 key_path = Some ''keys/x.key'', id_cabundle = None, certs = None\<rparr>)]\<rparr> \<and>
   files_for Certificate [''x.crt'', ''x.cert''] ''x'' = [''x.crt'', ''x.cert''] \<and>
   files_for Key [''x.key''] ''x'' = [''x.key''] \<and>
   distinct (map fst [(''x'', \<lparr>uid = ''x'', certificate_path = Some ''old/x.crt'', key_path = None,
                               id_cabundle = None, certs = None\<rparr>)]) \<and>
   uid_keyed [(''x'', \<lparr>uid = ''x'', certificate_path = Some ''old/x.crt'', key_path = None,
                       id_cabundle = None, certs = None\<rparr>)] \<and>
   uid_keyed [(''x'', \<lparr>uid = ''x'', certificate_path = Some ''certs/x.cert'',
                       key_path = Some ''keys/x.key'', id_cabundle = None, certs = None\<rparr>)]"
proof -
  let ?fs = "[(''certs'', [''x.crt'', ''x.cert'']), (''keys'', [''x.key''])]"
  let ?r0 = "\<lparr>uid = ''x'', certificate_path = Some ''old/x.crt'', key_path = None,
              id_cabundle = None, certs = None\<rparr>"
  let ?r1 = "\<lparr>uid = ''x'', certificate_path = Some ''certs/x.cert'', key_path = None,
              id_cabundle = None, certs = None\<rparr>"
  let ?r2 = "\<lparr>uid = ''x'', certificate_path = Some ''certs/x.cert'',
              key_path = Some ''keys/x.key'', id_cabundle = None, certs = None\<rparr>"
  have run1: "load_from_directory table_os ?fs \<lparr>cabundle = [], iddb = [(''x'', ?r0)]\<rparr>
                ''certs'' Certificate = Inr \<lparr>cabundle = [], iddb = [(''x'', ?r1)]\<rparr>"
    by (simp add: run_load)
  have run2: "load_from_directory table_os ?fs \<lparr>cabundle = [], iddb = [(''x'', ?r1)]\<rparr>
                ''keys'' Key = Inr \<lparr>cabundle = [], iddb = [(''x'', ?r2)]\<rparr>"
    by (simp add: run_load)
  have ff: "files_for Certificate [''x.crt'', ''x.cert''] ''x'' = [''x.crt'', ''x.cert'']"
      "files_for Key [''x.key''] ''x'' = [''x.key'']"
    by (simp_all add: files_for_def endswith_any_def endswith_def)
  show ?thesis
    using load_upsert [OF run1] load_upsert [OF run2] run1 run2 ff
    by (simp add: uid_keyed_def)
qed

section \<open>Properties of the verification\<close>

lemma verify_identity_absent:
  "map_of (iddb db) u = None \<Longrightarrow>
   verify_identity cr db u res = (Some (CliArgumentError (recipient_msg u)), db)"
  by (simp add: verify_identity_def)

lemma verify_identity_no_path:
  "map_of (iddb db) u = Some r \<Longrightarrow> certificate_path r = None \<Longrightarrow>
   verify_identity cr db u res =
     (Some (CliArgumentError (recipient_msg u)),
      db\<lparr>iddb := AList.update u (r\<lparr>id_cabundle := Some (cabundle db), certs := Some []\<rparr>) (iddb db)\<rparr>)"
  by (simp add: verify_identity_def Let_def)

lemma verify_identity_path:
  "map_of (iddb db) u = Some r \<Longrightarrow> certificate_path r = Some p \<Longrightarrow>
   verify_identity cr db u res =
     (case parse_file cr p of
        Inl e \<Rightarrow> (Some (on_key_error u e),
                  db\<lparr>iddb := AList.update u (r\<lparr>id_cabundle := Some (cabundle db), certs := Some []\<rparr>) (iddb db)\<rparr>)
      | Inr pems \<Rightarrow>
          (map_option (on_key_error u) (fst (verify_certs cr (cabundle db) pems [])),
           db\<lparr>iddb := AList.update u (r\<lparr>id_cabundle := Some (cabundle db),
                  certs := Some (snd (verify_certs cr (cabundle db) pems []))\<rparr>) (iddb db)\<rparr>))"
  by (simp add: verify_identity_def Let_def split: sum.splits prod.splits)

lemma verify_identity_cabundle: "cabundle (snd (verify_identity cr db u res)) = cabundle db"
  by (simp add: verify_identity_def Let_def split: option.splits sum.splits prod.splits)

lemma verify_identity_keys:
  "map fst (iddb (snd (verify_identity cr db u res))) = map fst (iddb db)"
proof (cases "map_of (iddb db) u")
  case None then show ?thesis by (simp add: verify_identity_absent)
next
  case (Some r)
  then have "u \<in> fst ` set (iddb db)" by (meson domI dom_map_of_conv_image_fst[THEN equalityD1, THEN subsetD] map_of_eq_None_iff option.distinct(1))
  then have k: "\<And>v. map fst (AList.update u v (iddb db)) = map fst (iddb db)"
    by (simp add: update_keys)
  show ?thesis
    by (cases "certificate_path r")
       (simp_all add: verify_identity_no_path [OF Some] verify_identity_path [OF Some] k split: sum.splits)
qed

lemma verify_identity_other:
  "k \<noteq> u \<Longrightarrow> map_of (iddb (snd (verify_identity cr db u res))) k = map_of (iddb db) k"
  by (simp add: verify_identity_def Let_def update_conv' split: option.splits sum.splits prod.splits)

lemma verify_identity_local:
  "cabundle d = cabundle d' \<Longrightarrow> map_of (iddb d) u = map_of (iddb d') u \<Longrightarrow>
   fst (verify_identity cr d u res) = fst (verify_identity cr d' u res') \<and>
   map_of (iddb (snd (verify_identity cr d u res))) u = map_of (iddb (snd (verify_identity cr d' u res'))) u"
  by (simp add: verify_identity_def Let_def update_conv' split: option.splits sum.splits prod.splits)

lemma verify_identity_twice:
  "verify_identity cr (snd (verify_identity cr db u res)) u res' = verify_identity cr db u res"
proof (cases "map_of (iddb db) u")
  case None then show ?thesis by (simp add: verify_identity_absent)
next
  case (Some r)
  show ?thesis
  proof (cases "certificate_path r")
    case None
    let ?r1 = "r\<lparr>id_cabundle := Some (cabundle db), certs := Some []\<rparr>"
    let ?db1 = "db\<lparr>iddb := AList.update u ?r1 (iddb db)\<rparr>"
    have m: "map_of (iddb ?db1) u = Some ?r1" by (simp add: update_conv')
    have p: "certificate_path ?r1 = None" using None by simp
    show ?thesis
      unfolding verify_identity_no_path [OF Some None]
      by (simp add: verify_identity_no_path [OF m p])
  next
    case (Some p)
    note r = \<open>map_of (iddb db) u = Some r\<close>
    show ?thesis
    proof (cases "parse_file cr p")
      case (Inl e)
      let ?r1 = "r\<lparr>id_cabundle := Some (cabundle db), certs := Some []\<rparr>"
      let ?db1 = "db\<lparr>iddb := AList.update u ?r1 (iddb db)\<rparr>"
      have m: "map_of (iddb ?db1) u = Some ?r1" by (simp add: update_conv')
      have q: "certificate_path ?r1 = Some p" using Some by simp
      show ?thesis
        unfolding verify_identity_path [OF r Some]
        by (simp add: Inl verify_identity_path [OF m q])
    next
      case (Inr pems)
      let ?cs = "snd (verify_certs cr (cabundle db) pems [])"
      let ?r1 = "r\<lparr>id_cabundle := Some (cabundle db), certs := Some ?cs\<rparr>"
      let ?db1 = "db\<lparr>iddb := AList.update u ?r1 (iddb db)\<rparr>"
      have m: "map_of (iddb ?db1) u = Some ?r1" by (simp add: update_conv')
      have q: "certificate_path ?r1 = Some p" using Some by simp
      show ?thesis
        unfolding verify_identity_path [OF r Some]
        by (simp add: Inr verify_identity_path [OF m q])
    qed
  qed
qed

lemma run_thread_cabundle: "cabundle (run_thread cr u d) = cabundle d"
  by (simp add: run_thread_def verify_identity_cabundle)

lemma run_thread_keys: "map fst (iddb (run_thread cr u d)) = map fst (iddb d)"
  by (simp add: run_thread_def verify_identity_keys)

lemma fold_run_thread_keys: "map fst (iddb (fold (run_thread cr) us d)) = map fst (iddb d)"
  by (induction us arbitrary: d) (simp_all add: run_thread_keys)

lemma fold_run_thread:
  "map_of (iddb (fold (run_thread cr) us d)) u =
     (if u \<in> set us then map_of (iddb (run_thread cr u d)) u else map_of (iddb d) u)"
proof (induction us arbitrary: d)
  case Nil then show ?case by simp
next
  case (Cons v us)
  show ?case
  proof (cases "u = v")
    case True
    have idem: "run_thread cr u (run_thread cr u d) = run_thread cr u d"
      by (simp add: run_thread_def verify_identity_twice)
    have "map_of (iddb (fold (run_thread cr) us (run_thread cr u d))) u =
            map_of (iddb (run_thread cr u d)) u"
      unfolding Cons.IH [of "run_thread cr u d"] idem by simp
    then show ?thesis by (simp add: True [symmetric])
  next
    case False
    have o: "map_of (iddb (run_thread cr v d)) u = map_of (iddb d) u"
      using False by (simp add: run_thread_def verify_identity_other)
    have "map_of (iddb (run_thread cr u (run_thread cr v d))) u = map_of (iddb (run_thread cr u d)) u"
      unfolding run_thread_def
      using verify_identity_local [OF run_thread_cabundle [of cr v d] o, of cr "[]::string list" "[]::string list"]
      by (simp add: run_thread_def)
    with False o show ?thesis by (simp add: Cons.IH)
  qed
qed


lemma verify_all_identity:
  "map_of (iddb (verify_all cr db)) u = map_of (iddb (run_thread cr u db)) u"
proof (cases "u \<in> set (map fst (iddb db))")
  case True then show ?thesis by (simp add: verify_all_def fold_run_thread)
next
  case False
  then have "map_of (iddb db) u = None" by (simp add: map_of_eq_None_iff)
  then have "run_thread cr u db = db" by (simp add: run_thread_def verify_identity_absent)
  with False show ?thesis by (simp add: verify_all_def fold_run_thread)
qed

lemma update_same_iff: "map_of al k = Some v \<Longrightarrow> AList.update k v' al = al \<longleftrightarrow> v' = v"
proof
  assume a: "map_of al k = Some v" "AList.update k v' al = al"
  have "map_of (AList.update k v' al) k = Some v'" by (simp add: update_conv')
  with a show "v' = v" by simp
next
  assume "map_of al k = Some v" "v' = v" then show "AList.update k v' al = al"
    by (simp add: update_triv)
qed

lemmas run_verify = verify_identity_def table_crypto_def make_cert_dict_def and_then_def
  recipient_msg_def Let_def

lemma certs_dir_load_sources:
  "load_sources table_os table_connectors certs_dir_state (Some ''certs'') None False =
     (None, certs_dir_loaded)"
  by (simp add: load_sources_def certs_dir_state_def certs_dir_loaded_def run_load)

lemma certs_dir_verify_all:
  "verify_all table_crypto (identities certs_dir_loaded) = identities certs_dir_verified"
  by (simp add: verify_all_def run_thread_def certs_dir_loaded_def certs_dir_verified_def run_verify)

text \<open>
  Claim C1, amended. When the sources have been loaded without an exception and
  \<^verbatim>\<open>verify_on_load\<close> is true, \<^verbatim>\<open>load_certs_from_directory\<close> returns without an exception,
  whatever the verifications raised; the identities are the same ones, and each identity
  of the database is left as \<^verbatim>\<open>verify_identity\<close> for it alone leaves it from the loaded
  database, so that the failure of one identity stops the verification of no other.
\<close>

theorem verify_on_load_reports_nothing:
  assumes "load_sources os conn s certpath connectmap nocache = (None, s1)"
  shows "load_certs_from_directory os conn cr s certpath True connectmap nocache =
           (None, s1\<lparr>identities := verify_all cr (identities s1)\<rparr>) \<and>
         map fst (iddb (verify_all cr (identities s1))) = map fst (iddb (identities s1)) \<and>
         (\<forall>u\<in>set (map fst (iddb (identities s1))).
            map_of (iddb (verify_all cr (identities s1))) u =
            map_of (iddb (snd (verify_identity cr (identities s1) u ([] :: string list)))) u)"
  using assms
  by (simp add: load_certs_from_directory_def verify_all_identity run_thread_def [symmetric])
     (simp add: verify_all_def fold_run_thread_keys)

theorem verify_on_load_witness:
  "load_sources table_os table_connectors certs_dir_state (Some ''certs'') None False =
     (None, certs_dir_loaded) \<and>
   load_certs_from_directory table_os table_connectors table_crypto certs_dir_state
     (Some ''certs'') True None False = (None, certs_dir_verified)"
  using verify_on_load_reports_nothing [OF certs_dir_load_sources, of table_crypto]
        certs_dir_load_sources
  by (simp add: certs_dir_verify_all) (simp add: certs_dir_loaded_def certs_dir_verified_def)

text \<open>
  The claim as it is written fails: the verification of \<open>b\<close> raises, \<open>a\<close> is verified after
  it, and the call returns without an exception.
\<close>

theorem verify_on_load_counterexample:
  "fst (verify_identity table_crypto (identities certs_dir_loaded) ''b'' ([] :: string list)) =
     Some (OSError ''No such file or directory'') \<and>
   load_certs_from_directory table_os table_connectors table_crypto certs_dir_state
     (Some ''certs'') True None False = (None, certs_dir_verified)"
  by (simp add: load_certs_from_directory_def certs_dir_load_sources certs_dir_verify_all)
     (simp add: certs_dir_loaded_def certs_dir_verified_def run_verify)

text \<open>
  Claim C8. For an identity of the database with a certificate path, a second
  \<^verbatim>\<open>verify_identity\<close> with the same certificate files and trust anchor raises what the
  first raised and leaves the database as the first left it; when the file parses, the
  certificates of the identity after the second call are the ones computed from the file,
  once.
\<close>

theorem verify_twice:
  assumes "map_of (iddb db) u = Some r" and "certificate_path r = Some p"
  shows "verify_identity cr (snd (verify_identity cr db u res)) u res' = verify_identity cr db u res \<and>
         (\<forall>pems. parse_file cr p = Inr pems \<longrightarrow>
            map_of (iddb (snd (verify_identity cr (snd (verify_identity cr db u res)) u res'))) u =
              Some (r\<lparr>id_cabundle := Some (cabundle db),
                      certs := Some (snd (verify_certs cr (cabundle db) pems []))\<rparr>))"
  by (simp add: verify_identity_twice)
     (simp add: verify_identity_path [OF assms] update_conv')

theorem verify_twice_witness:
  "map_of (iddb \<lparr>cabundle = ''ca'', iddb =
       [(''ab'', \<lparr>uid = ''ab'', certificate_path = Some ''certs/ab.crt'', key_path = None,
                  id_cabundle = None, certs = None\<rparr>)]\<rparr>) ''ab'' =
     Some \<lparr>uid = ''ab'', certificate_path = Some ''certs/ab.crt'', key_path = None,
           id_cabundle = None, certs = None\<rparr> \<and>
   parse_file table_crypto ''certs/ab.crt'' = Inr [''A'', ''B''] \<and>
   verify_identity table_crypto
     (snd (verify_identity table_crypto \<lparr>cabundle = ''ca'', iddb =
       [(''ab'', \<lparr>uid = ''ab'', certificate_path = Some ''certs/ab.crt'', key_path = None,
                  id_cabundle = None, certs = None\<rparr>)]\<rparr> ''ab'' ([] :: string list)))
     ''ab'' ([] :: string list) =
   (None, \<lparr>cabundle = ''ca'', iddb =
       [(''ab'', \<lparr>uid = ''ab'', certificate_path = Some ''certs/ab.crt'', key_path = None,
                  id_cabundle = Some ''ca'',
                  certs = Some
                    [\<lparr>cert_bytes = ''A'', verified = True, fingerprint = ''fp-A'',
                      subject = ''subject-A'', issuer = ''issuer-A'', enddate = ''enddate-A'',
                      issuerhash = ''ih-A'', subjecthash = ''sh-A''\<rparr>,
                     \<lparr>cert_bytes = ''B'', verified = True, fingerprint = ''fp-B'',
                      subject = ''subject-B'', issuer = ''issuer-B'', enddate = ''enddate-B'',
                      issuerhash = ''ih-B'', subjecthash = ''sh-B''\<rparr>]\<rparr>)]\<rparr>)"
proof -
  let ?r = "\<lparr>uid = ''ab'', certificate_path = Some ''certs/ab.crt'', key_path = None,
             id_cabundle = None, certs = None\<rparr>"
  let ?db = "\<lparr>cabundle = ''ca'', iddb = [(''ab'', ?r)]\<rparr>"
  have m: "map_of (iddb ?db) ''ab'' = Some ?r" by simp
  have p: "certificate_path ?r = Some ''certs/ab.crt''" by simp
  show ?thesis
    using verify_twice [OF m p, of table_crypto "[] :: string list" "[] :: string list"] m
    by (simp add: run_verify)
qed

text \<open>
  Claim C10, amended. For an identity of the database without a certificate path,
  \<^verbatim>\<open>verify_identity\<close> raises \<^verbatim>\<open>CliArgumentError\<close> and leaves the database with the trust
  anchor written to the identity and its certificates set to the empty list; the database
  differs from the one before the call unless the identity already had exactly these two
  values.
\<close>

theorem verify_not_atomic:
  assumes "map_of (iddb db) u = Some r" and "certificate_path r = None"
  shows "verify_identity cr db u res =
           (Some (CliArgumentError (recipient_msg u)),
            db\<lparr>iddb := AList.update u (r\<lparr>id_cabundle := Some (cabundle db), certs := Some []\<rparr>) (iddb db)\<rparr>) \<and>
         (snd (verify_identity cr db u res) \<noteq> db \<longleftrightarrow>
            \<not> (id_cabundle r = Some (cabundle db) \<and> certs r = Some []))"
proof -
  let ?r1 = "r\<lparr>id_cabundle := Some (cabundle db), certs := Some []\<rparr>"
  have "db\<lparr>iddb := AList.update u ?r1 (iddb db)\<rparr> = db \<longleftrightarrow> AList.update u ?r1 (iddb db) = iddb db"
    by (cases db) simp
  also have "\<dots> \<longleftrightarrow> ?r1 = r" by (rule update_same_iff [OF assms(1)])
  also have "\<dots> \<longleftrightarrow> id_cabundle r = Some (cabundle db) \<and> certs r = Some []"
    by (cases r) auto
  finally show ?thesis by (simp add: verify_identity_no_path [OF assms])
qed

theorem verify_not_atomic_witness:
  "map_of (iddb \<lparr>cabundle = ''ca'', iddb =
       [(''c'', \<lparr>uid = ''c'', certificate_path = None, key_path = Some ''keys/c.key'',
                 id_cabundle = None, certs = None\<rparr>)]\<rparr>) ''c'' =
     Some \<lparr>uid = ''c'', certificate_path = None, key_path = Some ''keys/c.key'',
           id_cabundle = None, certs = None\<rparr> \<and>
   verify_identity table_crypto \<lparr>cabundle = ''ca'', iddb =
       [(''c'', \<lparr>uid = ''c'', certificate_path = None, key_path = Some ''keys/c.key'',
                 id_cabundle = None, certs = None\<rparr>)]\<rparr> ''c'' ([] :: string list) =
   (Some (CliArgumentError (recipient_msg ''c'')),
    \<lparr>cabundle = ''ca'', iddb =
       [(''c'', \<lparr>uid = ''c'', certificate_path = None, key_path = Some ''keys/c.key'',
                 id_cabundle = Some ''ca'', certs = Some []\<rparr>)]\<rparr>) \<and>
   snd (verify_identity table_crypto \<lparr>cabundle = ''ca'', iddb =
       [(''c'', \<lparr>uid = ''c'', certificate_path = None, key_path = Some ''keys/c.key'',
                 id_cabundle = None, certs = None\<rparr>)]\<rparr> ''c'' ([] :: string list)) \<noteq>
   \<lparr>cabundle = ''ca'', iddb =
       [(''c'', \<lparr>uid = ''c'', certificate_path = None, key_path = Some ''keys/c.key'',
                 id_cabundle = None, certs = None\<rparr>)]\<rparr>"
proof -
  let ?r = "\<lparr>uid = ''c'', certificate_path = None, key_path = Some ''keys/c.key'',
             id_cabundle = None, certs = None\<rparr>"
  let ?db = "\<lparr>cabundle = ''ca'', iddb = [(''c'', ?r)]\<rparr>"
  have m: "map_of (iddb ?db) ''c'' = Some ?r" by simp
  have p: "certificate_path ?r = None" by simp
  show ?thesis
    using verify_not_atomic [OF m p, of table_crypto "[] :: string list"] m
    by simp
qed

text \<open>
  The claim as it is written fails at a second call: the database that the first failed
  verification of \<open>c\<close> leaves is the database after the second one as well.
\<close>

theorem verify_not_atomic_counterexample:
  "map_of (iddb \<lparr>cabundle = ''ca'', iddb =
       [(''c'', \<lparr>uid = ''c'', certificate_path = None, key_path = Some ''keys/c.key'',
                 id_cabundle = Some ''ca'', certs = Some []\<rparr>)]\<rparr>) ''c'' =
     Some \<lparr>uid = ''c'', certificate_path = None, key_path = Some ''keys/c.key'',
           id_cabundle = Some ''ca'', certs = Some []\<rparr> \<and>
   snd (verify_identity table_crypto \<lparr>cabundle = ''ca'', iddb =
       [(''c'', \<lparr>uid = ''c'', certificate_path = None, key_path = Some ''keys/c.key'',
                 id_cabundle = None, certs = None\<rparr>)]\<rparr> ''c'' ([] :: string list)) =
     \<lparr>cabundle = ''ca'', iddb =
       [(''c'', \<lparr>uid = ''c'', certificate_path = None, key_path = Some ''keys/c.key'',
                 id_cabundle = Some ''ca'', certs = Some []\<rparr>)]\<rparr> \<and>
   verify_identity table_crypto \<lparr>cabundle = ''ca'', iddb =
       [(''c'', \<lparr>uid = ''c'', certificate_path = None, key_path = Some ''keys/c.key'',
                 id_cabundle = Some ''ca'', certs = Some []\<rparr>)]\<rparr> ''c'' ([] :: string list) =
   (Some (CliArgumentError (recipient_msg ''c'')),
    \<lparr>cabundle = ''ca'', iddb =
       [(''c'', \<lparr>uid = ''c'', certificate_path = None, key_path = Some ''keys/c.key'',
                 id_cabundle = Some ''ca'', certs = Some []\<rparr>)]\<rparr>)"
  by (simp add: verify_identity_def Let_def)

section \<open>Properties of loading from connectors\<close>

lemma load_connector_cached:
  assumes "\<not> nocache" "listdir os f1 (os_path_join t key) = Inr names" "names \<noteq> []"
      and "(if \<not> path_exists os (fs s) (os_path_join t key) then makedirs os (fs s) (os_path_join t key)
            else (None, fs s)) = (None, f1)"
  shows "load_connector os conn nocache (PStr t) s (key, val) =
           (case load_from_directory os f1 (identities s) (os_path_join t key) Certificate of
              Inl e \<Rightarrow> (Some e, s\<lparr>fs := f1\<rparr>)
            | Inr db \<Rightarrow> (None, s\<lparr>fs := f1, identities := db\<rparr>))"
  using assms by (simp add: load_connector_def Let_def split: sum.splits)

lemma load_connector_fetch:
  assumes "nocache \<or> listdir os f1 (os_path_join t key) = Inr []"
      and "(if \<not> path_exists os (fs s) (os_path_join t key) then makedirs os (fs s) (os_path_join t key)
            else (None, fs s)) = (None, f1)"
  shows "invoked (snd (load_connector os conn nocache (PStr t) s (key, val))) = invoked s @ [(key, val)]"
    and "\<And>e. conn (lower key) key val = Inl e \<Longrightarrow>
           load_connector os conn nocache (PStr t) s (key, val) =
             (Some e, s\<lparr>fs := f1, invoked := invoked s @ [(key, val)]\<rparr>)"
  using assms
  by (auto simp: load_connector_def Let_def split: sum.splits prod.splits option.splits)

lemma load_connector_no_fetch:
  assumes "\<not> (nocache \<or> listdir os f1 (os_path_join t key) = Inr [])"
      and "(if \<not> path_exists os (fs s) (os_path_join t key) then makedirs os (fs s) (os_path_join t key)
            else (None, fs s)) = (None, f1)"
  shows "invoked (snd (load_connector os conn nocache (PStr t) s (key, val))) = invoked s"
  using assms
  by (auto simp: load_connector_def Let_def split: sum.splits prod.splits option.splits)

lemma load_connector_nocache:
  "load_connector os conn True temp_dir s entry = (None, s') \<Longrightarrow> invoked s' = invoked s @ [entry]"
  by (cases entry; cases temp_dir)
     (auto simp: load_connector_def Let_def split: sum.splits prod.splits option.splits if_splits)

lemma load_connectors_nocache:
  "load_connectors os conn True temp_dir s entries = (None, s') \<Longrightarrow>
   invoked s' = invoked s @ entries"
proof (induction entries arbitrary: s)
  case Nil then show ?case by simp
next
  case (Cons entry rest)
  then obtain s1 where s1: "load_connector os conn True temp_dir s entry = (None, s1)"
      "load_connectors os conn True temp_dir s1 rest = (None, s')"
    by (auto split: prod.splits option.splits)
  from load_connector_nocache [OF s1(1)] Cons.IH [OF s1(2)] show ?case by simp
qed

lemma load_connectors_append:
  "load_connectors os conn nocache temp_dir s before = (None, si) \<Longrightarrow>
   load_connectors os conn nocache temp_dir s (before @ entry # after) =
     (case load_connector os conn nocache temp_dir si entry of
        (Some e, s') \<Rightarrow> (Some e, s')
      | (None, s') \<Rightarrow> load_connectors os conn nocache temp_dir s' after)"
proof (induction before arbitrary: s)
  case Nil then show ?case by simp
next
  case (Cons b before)
  then obtain s1 where s1: "load_connector os conn nocache temp_dir s b = (None, s1)"
      "load_connectors os conn nocache temp_dir s1 before = (None, si)"
    by (auto split: prod.splits option.splits)
  from Cons.IH [OF s1(2)] s1(1) show ?case by simp
qed

lemma connector_entries_cases:
  "map_of cm ''base_directory'' = None \<Longrightarrow>
     cache_root os f cm = PStr (gettempdir os f) \<and> connector_entries cm = cm"
  "map_of cm ''base_directory'' = Some v \<Longrightarrow> \<not> truthy v \<Longrightarrow>
     cache_root os f cm = PStr (gettempdir os f) \<and> connector_entries cm = cm"
  "map_of cm ''base_directory'' = Some v \<Longrightarrow> truthy v \<Longrightarrow>
     cache_root os f cm = v \<and> connector_entries cm = AList.delete ''base_directory'' cm"
  by (simp_all add: cache_root_def connector_entries_def)

lemma load_connector_cached_state:
  assumes "\<not> nocache" "path_exists os (fs s) (os_path_join t key)"
      "listdir os (fs s) (os_path_join t key) = Inr names" "names \<noteq> []"
  shows "fs (snd (load_connector os conn nocache (PStr t) s (key, val))) = fs s \<and>
         invoked (snd (load_connector os conn nocache (PStr t) s (key, val))) = invoked s"
  using assms by (auto simp: load_connector_def Let_def split: sum.splits)

lemma load_connectors_cached:
  assumes "\<not> nocache"
  shows "\<forall>(key, val)\<in>set entries. path_exists os (fs s) (os_path_join t key) \<and>
            (\<exists>names. listdir os (fs s) (os_path_join t key) = Inr names \<and> names \<noteq> []) \<Longrightarrow>
         fs (snd (load_connectors os conn nocache (PStr t) s entries)) = fs s \<and>
         invoked (snd (load_connectors os conn nocache (PStr t) s entries)) = invoked s"
proof (induction entries arbitrary: s)
  case Nil then show ?case by simp
next
  case (Cons entry rest)
  obtain key val where e: "entry = (key, val)" by (cases entry)
  from Cons.prems e obtain names where n: "path_exists os (fs s) (os_path_join t key)"
     "listdir os (fs s) (os_path_join t key) = Inr names" "names \<noteq> []" by auto
  note st = load_connector_cached_state [OF assms n, of conn val]
  obtain eo s1 where r: "load_connector os conn nocache (PStr t) s (key, val) = (eo, s1)"
    by (cases "load_connector os conn nocache (PStr t) s (key, val)")
  with st have s1: "fs s1 = fs s" "invoked s1 = invoked s" by simp_all
  show ?case
  proof (cases eo)
    case (Some err) with r s1 e show ?thesis by simp
  next
    case None
    from Cons.prems have "\<forall>(key, val)\<in>set rest. path_exists os (fs s1) (os_path_join t key) \<and>
            (\<exists>names. listdir os (fs s1) (os_path_join t key) = Inr names \<and> names \<noteq> [])"
      unfolding s1 by simp
    from Cons.IH [OF this] None r s1 e show ?thesis by simp
  qed
qed

lemma lower_Ldap: "lower ''Ldap'' = ''ldap''"
  by code_simp

lemmas run_connector = load_connector_def table_connectors_def lower_Ldap
  dirname_of_def basename_of_def

text \<open>
  Claim C9. \<^verbatim>\<open>_load_certs_from_external\<close> takes the root of the cache directories from a
  true \<^verbatim>\<open>base_directory\<close> entry, which is then no connector entry, and from
  \<^verbatim>\<open>tempfile.gettempdir()\<close> otherwise, and runs over the connector entries in order. For
  an entry that the entries before it reached without an exception, under a root that is
  a string, and whose cache directory exists or has just been made: the result of the
  whole call is the result of the step for this entry, followed by the later entries
  when the step raises nothing; the connector is called in this step if and only if
  \<^verbatim>\<open>nocache\<close> is set or the directory lists as empty, and it is called once; when
  \<^verbatim>\<open>nocache\<close> is not set and the directory has entries, the step is the load of the
  directory as a certificate directory and nothing else; when the connector is called and
  raises, its exception leaves the function. Over the whole map: with \<^verbatim>\<open>nocache\<close> a call
  without exception has called the connector of every connector entry, in order; without
  \<^verbatim>\<open>nocache\<close>, when every cache directory exists with entries, no connector is called and
  the file system is as it was.
\<close>

theorem connector_cache_bypass:
  "(\<forall>t before key val after si f1.
      cache_root os (fs s) cm = PStr t \<and>
      connector_entries cm = before @ (key, val) # after \<and>
      load_connectors os conn nocache (PStr t) s before = (None, si) \<and>
      (if \<not> path_exists os (fs si) (os_path_join t key)
       then makedirs os (fs si) (os_path_join t key) else (None, fs si)) = (None, f1) \<longrightarrow>
      load_certs_from_external os conn s cm nocache =
        (case load_connector os conn nocache (PStr t) si (key, val) of
           (Some e, s') \<Rightarrow> (Some e, s')
         | (None, s') \<Rightarrow> load_connectors os conn nocache (PStr t) s' after) \<and>
      (invoked (snd (load_connector os conn nocache (PStr t) si (key, val))) = invoked si @ [(key, val)]
         \<longleftrightarrow> nocache \<or> listdir os f1 (os_path_join t key) = Inr []) \<and>
      (invoked (snd (load_connector os conn nocache (PStr t) si (key, val))) = invoked si
         \<longleftrightarrow> \<not> (nocache \<or> listdir os f1 (os_path_join t key) = Inr [])) \<and>
      (\<forall>names. \<not> nocache \<and> listdir os f1 (os_path_join t key) = Inr names \<and> names \<noteq> [] \<longrightarrow>
         load_connector os conn nocache (PStr t) si (key, val) =
           (case load_from_directory os f1 (identities si) (os_path_join t key) Certificate of
              Inl e \<Rightarrow> (Some e, si\<lparr>fs := f1\<rparr>)
            | Inr db \<Rightarrow> (None, si\<lparr>fs := f1, identities := db\<rparr>))) \<and>
      (\<forall>e. (nocache \<or> listdir os f1 (os_path_join t key) = Inr []) \<and>
            conn (lower key) key val = Inl e \<longrightarrow>
         load_connector os conn nocache (PStr t) si (key, val) =
           (Some e, si\<lparr>fs := f1, invoked := invoked si @ [(key, val)]\<rparr>))) \<and>
   (\<forall>s'. load_certs_from_external os conn s cm True = (None, s') \<longrightarrow>
      invoked s' = invoked s @ connector_entries cm) \<and>
   (\<forall>t. \<not> nocache \<and> cache_root os (fs s) cm = PStr t \<and>
      (\<forall>(key, val)\<in>set (connector_entries cm). path_exists os (fs s) (os_path_join t key) \<and>
          (\<exists>names. listdir os (fs s) (os_path_join t key) = Inr names \<and> names \<noteq> [])) \<longrightarrow>
      fs (snd (load_certs_from_external os conn s cm nocache)) = fs s \<and>
      invoked (snd (load_certs_from_external os conn s cm nocache)) = invoked s) \<and>
   (map_of cm ''base_directory'' = None \<longrightarrow>
      cache_root os (fs s) cm = PStr (gettempdir os (fs s)) \<and> connector_entries cm = cm) \<and>
   (\<forall>v. map_of cm ''base_directory'' = Some v \<and> \<not> truthy v \<longrightarrow>
      cache_root os (fs s) cm = PStr (gettempdir os (fs s)) \<and> connector_entries cm = cm) \<and>
   (\<forall>v. map_of cm ''base_directory'' = Some v \<and> truthy v \<longrightarrow>
      cache_root os (fs s) cm = v \<and>
      connector_entries cm = AList.delete ''base_directory'' cm)"
proof (intro conjI allI impI)
  fix t before key val after si f1
  assume h: "cache_root os (fs s) cm = PStr t \<and>
      connector_entries cm = before @ (key, val) # after \<and>
      load_connectors os conn nocache (PStr t) s before = (None, si) \<and>
      (if \<not> path_exists os (fs si) (os_path_join t key)
       then makedirs os (fs si) (os_path_join t key) else (None, fs si)) = (None, f1)"
  then have root: "cache_root os (fs s) cm = PStr t"
    and ents: "connector_entries cm = before @ (key, val) # after"
    and pre: "load_connectors os conn nocache (PStr t) s before = (None, si)"
    and dir: "(if \<not> path_exists os (fs si) (os_path_join t key)
       then makedirs os (fs si) (os_path_join t key) else (None, fs si)) = (None, f1)"
    by simp_all
  show "load_certs_from_external os conn s cm nocache =
        (case load_connector os conn nocache (PStr t) si (key, val) of
           (Some e, s') \<Rightarrow> (Some e, s')
         | (None, s') \<Rightarrow> load_connectors os conn nocache (PStr t) s' after)"
    unfolding load_certs_from_external_def root ents
    by (rule load_connectors_append [OF pre])
  show "invoked (snd (load_connector os conn nocache (PStr t) si (key, val))) = invoked si @ [(key, val)]
         \<longleftrightarrow> nocache \<or> listdir os f1 (os_path_join t key) = Inr []"
    using load_connector_fetch(1) [OF _ dir, of nocache conn val]
          load_connector_no_fetch [OF _ dir, of nocache conn val]
    by (cases "nocache \<or> listdir os f1 (os_path_join t key) = Inr []") auto
  show "invoked (snd (load_connector os conn nocache (PStr t) si (key, val))) = invoked si
         \<longleftrightarrow> \<not> (nocache \<or> listdir os f1 (os_path_join t key) = Inr [])"
    using load_connector_fetch(1) [OF _ dir, of nocache conn val]
          load_connector_no_fetch [OF _ dir, of nocache conn val]
    by (cases "nocache \<or> listdir os f1 (os_path_join t key) = Inr []") auto
  {
    fix names
    assume "\<not> nocache \<and> listdir os f1 (os_path_join t key) = Inr names \<and> names \<noteq> []"
    then show "load_connector os conn nocache (PStr t) si (key, val) =
           (case load_from_directory os f1 (identities si) (os_path_join t key) Certificate of
              Inl e \<Rightarrow> (Some e, si\<lparr>fs := f1\<rparr>)
            | Inr db \<Rightarrow> (None, si\<lparr>fs := f1, identities := db\<rparr>))"
      using load_connector_cached [of nocache os f1 t key names si conn val] dir by simp
  }
  {
    fix e
    assume "(nocache \<or> listdir os f1 (os_path_join t key) = Inr []) \<and>
            conn (lower key) key val = Inl e"
    then show "load_connector os conn nocache (PStr t) si (key, val) =
           (Some e, si\<lparr>fs := f1, invoked := invoked si @ [(key, val)]\<rparr>)"
      using load_connector_fetch(2) [OF _ dir, of nocache conn val e] by simp
  }
next
  fix s'
  assume "load_certs_from_external os conn s cm True = (None, s')"
  then show "invoked s' = invoked s @ connector_entries cm"
    unfolding load_certs_from_external_def by (rule load_connectors_nocache)
next
  fix t
  assume h: "\<not> nocache \<and> cache_root os (fs s) cm = PStr t \<and>
      (\<forall>(key, val)\<in>set (connector_entries cm). path_exists os (fs s) (os_path_join t key) \<and>
          (\<exists>names. listdir os (fs s) (os_path_join t key) = Inr names \<and> names \<noteq> []))"
  then have n: "\<not> nocache" and root: "cache_root os (fs s) cm = PStr t" by simp_all
  from h load_connectors_cached [OF n, of "connector_entries cm" os s t conn]
  show "fs (snd (load_certs_from_external os conn s cm nocache)) = fs s"
    and "invoked (snd (load_certs_from_external os conn s cm nocache)) = invoked s"
    unfolding load_certs_from_external_def root by simp_all
next
  assume "map_of cm ''base_directory'' = None"
  then show "cache_root os (fs s) cm = PStr (gettempdir os (fs s))" "connector_entries cm = cm"
    by (simp_all add: connector_entries_cases(1))
next
  fix v assume "map_of cm ''base_directory'' = Some v \<and> \<not> truthy v"
  then show "cache_root os (fs s) cm = PStr (gettempdir os (fs s))" "connector_entries cm = cm"
    by (simp_all add: connector_entries_cases(2))
next
  fix v assume "map_of cm ''base_directory'' = Some v \<and> truthy v"
  then show "cache_root os (fs s) cm = v"
    "connector_entries cm = AList.delete ''base_directory'' cm"
    by (simp_all add: connector_entries_cases(3))
qed

lemma ldap_map:
  "cache_root table_os (fs ldap_cached_state)
     [(''base_directory'', PStr ''/tmp''), (''Ldap'', PStr ''ldap://host'')] = PStr ''/tmp''"
  "connector_entries [(''base_directory'', PStr ''/tmp''), (''Ldap'', PStr ''ldap://host'')] =
     [] @ (''Ldap'', PStr ''ldap://host'') # []"
  by (simp_all add: cache_root_def connector_entries_def)

theorem connector_cache_bypass_witness:
  "cache_root table_os (fs ldap_cached_state)
     [(''base_directory'', PStr ''/tmp''), (''Ldap'', PStr ''ldap://host'')] = PStr ''/tmp'' \<and>
   connector_entries [(''base_directory'', PStr ''/tmp''), (''Ldap'', PStr ''ldap://host'')] =
     [(''Ldap'', PStr ''ldap://host'')] \<and>
   (if \<not> path_exists table_os (fs ldap_cached_state) (os_path_join ''/tmp'' ''Ldap'')
    then makedirs table_os (fs ldap_cached_state) (os_path_join ''/tmp'' ''Ldap'')
    else (None, fs ldap_cached_state)) = (None, fs ldap_cached_state) \<and>
   listdir table_os (fs ldap_cached_state) (os_path_join ''/tmp'' ''Ldap'') = Inr [''x.cert''] \<and>
   load_certs_from_external table_os table_connectors ldap_cached_state
     [(''base_directory'', PStr ''/tmp''), (''Ldap'', PStr ''ldap://host'')] False =
   (None, ldap_cached_state\<lparr>identities := \<lparr>cabundle = [], iddb =
       [(''x'', \<lparr>uid = ''x'', certificate_path = Some ''/tmp/Ldap/x.cert'', key_path = None,
                 id_cabundle = None, certs = None\<rparr>)]\<rparr>\<rparr>) \<and>
   load_certs_from_external table_os table_connectors ldap_cached_state
     [(''base_directory'', PStr ''/tmp''), (''Ldap'', PStr ''ldap://host'')] True =
   (None, \<lparr>fs = [(''/tmp/Ldap'', [''x.cert'', ''y.cert''])],
           identities = \<lparr>cabundle = [], iddb =
             [(''x'', \<lparr>uid = ''x'', certificate_path = Some ''/tmp/Ldap/x.cert'', key_path = None,
                       id_cabundle = None, certs = None\<rparr>),
              (''y'', \<lparr>uid = ''y'', certificate_path = Some ''/tmp/Ldap/y.cert'', key_path = None,
                       id_cabundle = None, certs = None\<rparr>)]\<rparr>,
           invoked = [(''Ldap'', PStr ''ldap://host'')]\<rparr>)"
proof -
  let ?cm = "[(''base_directory'', PStr ''/tmp''), (''Ldap'', PStr ''ldap://host'')]"
  have pre: "load_connectors table_os table_connectors False (PStr ''/tmp'') ldap_cached_state [] =
               (None, ldap_cached_state)"
    by simp
  have dir: "(if \<not> path_exists table_os (fs ldap_cached_state) (os_path_join ''/tmp'' ''Ldap'')
    then makedirs table_os (fs ldap_cached_state) (os_path_join ''/tmp'' ''Ldap'')
    else (None, fs ldap_cached_state)) = (None, fs ldap_cached_state)"
    by (simp add: ldap_cached_state_def table_os_def os_path_join_def)
  have ls: "listdir table_os (fs ldap_cached_state) (os_path_join ''/tmp'' ''Ldap'') = Inr [''x.cert'']"
    by (simp add: ldap_cached_state_def table_os_def os_path_join_def)
  have fetch: "load_certs_from_external table_os table_connectors ldap_cached_state ?cm True =
   (None, \<lparr>fs = [(''/tmp/Ldap'', [''x.cert'', ''y.cert''])],
           identities = \<lparr>cabundle = [], iddb =
             [(''x'', \<lparr>uid = ''x'', certificate_path = Some ''/tmp/Ldap/x.cert'', key_path = None,
                       id_cabundle = None, certs = None\<rparr>),
              (''y'', \<lparr>uid = ''y'', certificate_path = Some ''/tmp/Ldap/y.cert'', key_path = None,
                       id_cabundle = None, certs = None\<rparr>)]\<rparr>,
           invoked = [(''Ldap'', PStr ''ldap://host'')]\<rparr>)"
    by (simp add: load_certs_from_external_def cache_root_def connector_entries_def
          ldap_cached_state_def run_connector run_load)
  have cached: "load_certs_from_external table_os table_connectors ldap_cached_state ?cm False =
   (None, ldap_cached_state\<lparr>identities := \<lparr>cabundle = [], iddb =
       [(''x'', \<lparr>uid = ''x'', certificate_path = Some ''/tmp/Ldap/x.cert'', key_path = None,
                 id_cabundle = None, certs = None\<rparr>)]\<rparr>\<rparr>)"
    by (simp add: load_certs_from_external_def cache_root_def connector_entries_def
          ldap_cached_state_def run_connector run_load)
  show ?thesis
    using connector_cache_bypass [of table_os ldap_cached_state ?cm table_connectors False]
          ldap_map pre dir ls fetch cached
    by simp
qed

end
